theory Spec2Isabelle
  imports Complex_Main "HOL-Library.Word" "HOL-Library.Signed_Division"
begin

section \<open>Machine integers and the device environment\<close>

text \<open>
  The host program works on C++ \<open>int\<close> values. They are modelled as \<open>int\<close>, with the
  division of C++ (\<open>sdiv\<close> and \<open>smod\<close>, which truncate towards zero) and with the
  undefined operations written out as faults. The compute-unit count of a device is
  the unsigned 32-bit value that \<open>get_info<max_compute_units>\<close> returns: unsigned
  arithmetic on it wraps around, and \<open>sint\<close> is its conversion to \<open>int\<close>.
\<close>

type_synonym u32 = "32 word"

datatype fault = DivisionByZero | IntegerOverflow | BadArrayNewLength

definition INT_MAX :: int where
  "INT_MAX = 2147483647"

definition INT_MIN :: int where
  "INT_MIN = - 2147483648"

text \<open>
  What the SYCL runtime answers on one host: how many devices of any type there are,
  the compute-unit count of each GPU device by its index (the index \<open>solverThread\<close> and
  \<open>multiSolver\<close> use to open a queue on \<open>plan->device\<close>), and which of them a queue
  built from \<open>gpu_selector{}\<close> is bound to.
\<close>

record sycl_env =
  device_count :: nat
  max_compute_units :: "nat \<Rightarrow> u32"
  gpu_selected :: nat

text \<open>
  \<open>adjustProblemSize\<close>, lines 62-79. Every iteration builds
  \<open>sycl::queue(gpu_selector{})\<close> and reads the compute units of that queue's device;
  the loop variable \<open>i\<close> does not occur in the body.
\<close>

definition adjustProblemSize :: "sycl_env \<Rightarrow> int \<Rightarrow> int \<Rightarrow> int" where
  "adjustProblemSize env GPU_N default_nOptions =
     foldl (\<lambda>nOptions i.
              let cudaCores = sint (max_compute_units env (gpu_selected env))
              in if cudaCores \<le> 32
                 then (if nOptions < cudaCores sdiv 2 then nOptions else cudaCores sdiv 2)
                 else nOptions)
       default_nOptions [0..<nat GPU_N]"

text \<open>
  \<open>adjustGridSize\<close>, lines 81-89. The product with 40 is taken in unsigned 32-bit
  arithmetic and then stored in an \<open>int\<close>; the parameter \<open>GPUIndex\<close> is not used.
\<close>

definition adjustGridSize :: "sycl_env \<Rightarrow> int \<Rightarrow> int \<Rightarrow> int" where
  "adjustGridSize env GPUIndex defaultGridSize =
     (let maxGridSize = sint (max_compute_units env (gpu_selected env) * 40)
      in if defaultGridSize > maxGridSize then maxGridSize else defaultGridSize)"

section \<open>The plan builder\<close>

text \<open>
  \<open>TOptionPlan\<close> as \<open>main\<close> fills it. The two pointers \<open>optionData\<close> and \<open>callValue\<close>
  point into the shared arrays of \<open>OPT_N\<close> elements; each is modelled by the index of
  the element it points to.
\<close>

record TOptionPlan =
  device :: int
  optionCount :: int
  optionData :: int
  callValue :: int
  pathN :: int
  gridSize :: int

text \<open>The body of the loop of lines 320-328, on the array and the running \<open>gpuBase\<close>.\<close>

definition assign_range ::
  "sycl_env \<Rightarrow> int \<Rightarrow> TOptionPlan list \<times> int \<Rightarrow> nat \<Rightarrow> TOptionPlan list \<times> int" where
  "assign_range env PATH_N st i =
     (let optionSolver = fst st; gpuBase = snd st;
          p = (optionSolver ! i)\<lparr>device := int i\<rparr>;
          p = p\<lparr>optionData := gpuBase\<rparr>;
          p = p\<lparr>callValue := gpuBase\<rparr>;
          p = p\<lparr>pathN := PATH_N\<rparr>;
          p = p\<lparr>gridSize := adjustGridSize env (device p) (optionCount p)\<rparr>
      in (optionSolver[i := p], gpuBase + optionCount p))"

text \<open>
  Lines 308-328 of \<open>main\<close>. The array \<open>optionSolver\<close> comes from
  \<open>new TOptionPlan[GPU_N]\<close>, so \<open>GPU_N\<close> is a natural number here and the elements hold
  whatever the allocation left there: \<open>uninit i\<close> for element \<open>i\<close>. The first loop does
  not run when \<open>GPU_N = 0\<close>; the bound \<open>OPT_N % GPU_N\<close> of the second loop is evaluated
  in every run, and is a division by zero then.
\<close>

definition buildPlans ::
  "sycl_env \<Rightarrow> (nat \<Rightarrow> TOptionPlan) \<Rightarrow> nat \<Rightarrow> int \<Rightarrow> int \<Rightarrow> fault + TOptionPlan list" where
  "buildPlans env uninit GPU_N OPT_N PATH_N =
     (let optionSolver = map uninit [0..<GPU_N];
          optionSolver =
            foldl (\<lambda>ps i. ps[i := (ps ! i)\<lparr>optionCount := OPT_N sdiv int GPU_N\<rparr>])
              optionSolver [0..<GPU_N]
      in if GPU_N = 0 then Inl DivisionByZero
         else
           let optionSolver =
                 foldl (\<lambda>ps i. ps[i := (ps ! i)\<lparr>optionCount := optionCount (ps ! i) + 1\<rparr>])
                   optionSolver [0..<nat (OPT_N smod int GPU_N)]
           in Inr (fst (foldl (assign_range env PATH_N) (optionSolver, 0) [0..<GPU_N])))"

text \<open>
  Lines 247-255 of \<open>main\<close>: the number of devices, the problem size scaled by it unless
  \<open>--scaling=strong\<close> was given, and the number of paths. The product is a signed
  multiplication.
\<close>

definition problem_size :: "sycl_env \<Rightarrow> bool \<Rightarrow> fault + nat \<times> int \<times> int" where
  "problem_size env strongScaling =
     (let GPU_N = device_count env;
          nOptions = adjustProblemSize env (int GPU_N) (8 * 1024);
          scale = (if strongScaling then 1 else int GPU_N);
          OPT_N = nOptions * scale;
          PATH_N = 262144
      in if OPT_N < INT_MIN \<or> INT_MAX < OPT_N then Inl IntegerOverflow
         else Inr (GPU_N, OPT_N, PATH_N))"

text \<open>
  \<open>main\<close> up to line 328, as far as the plans depend on it. The arrays of lines 266-270
  are allocated with \<open>new\<close> for \<open>OPT_N\<close> elements, which raises for a negative length.
\<close>

definition main_plans ::
  "sycl_env \<Rightarrow> (nat \<Rightarrow> TOptionPlan) \<Rightarrow> bool \<Rightarrow> fault + TOptionPlan list" where
  "main_plans env uninit strongScaling =
     (case problem_size env strongScaling of
        Inl e \<Rightarrow> Inl e
      | Inr (GPU_N, OPT_N, PATH_N) \<Rightarrow>
          if OPT_N < 0 then Inl BadArrayNewLength
          else buildPlans env uninit GPU_N OPT_N PATH_N)"

text \<open>The elements of the shared arrays that a plan owns.\<close>

definition plan_range :: "TOptionPlan \<Rightarrow> int set" where
  "plan_range p = {callValue p ..< callValue p + optionCount p}"

text \<open>
  The closed form of what the two counting loops leave in \<open>optionCount\<close> of element \<open>i\<close>,
  and of the value of \<open>gpuBase\<close> when the third loop reaches element \<open>i\<close>. The lemmas
  below relate them to \<open>buildPlans\<close>.
\<close>

definition share :: "nat \<Rightarrow> int \<Rightarrow> nat \<Rightarrow> int" where
  "share GPU_N OPT_N i =
     OPT_N sdiv int GPU_N + (if i < nat (OPT_N smod int GPU_N) then 1 else 0)"

definition base_of :: "nat \<Rightarrow> int \<Rightarrow> nat \<Rightarrow> int" where
  "base_of GPU_N OPT_N i = (\<Sum>k<i. share GPU_N OPT_N k)"

subsection \<open>Concrete hosts\<close>

text \<open>
  A host with two GPU devices, of 64 and of 16 compute units, where \<open>gpu_selector\<close>
  picks the first; a host on which the runtime finds no device; and the content of a
  freshly allocated plan array.
\<close>

definition example_env :: sycl_env where
  "example_env = \<lparr>device_count = 2,
                   max_compute_units = (\<lambda>d. if d = 1 then 16 else 64),
                   gpu_selected = 0\<rparr>"

definition no_device_env :: sycl_env where
  "no_device_env = \<lparr>device_count = 0,
                     max_compute_units = (\<lambda>d. 64),
                     gpu_selected = 0\<rparr>"

definition example_uninit :: "nat \<Rightarrow> TOptionPlan" where
  "example_uninit i = \<lparr>device = - 1, optionCount = - 1, optionData = - 1,
                         callValue = - 1, pathN = - 1, gridSize = - 1\<rparr>"

section \<open>Floating-point values\<close>

text \<open>
  The values of \<open>float\<close> and \<open>double\<close> variables: a real number, one of the two
  infinities, or not-a-number. Comparison follows IEEE 754 (every comparison with
  not-a-number is false), and so do the special cases of the arithmetic. On finite
  operands the arithmetic is that of the reals: rounding and overflow to infinity are
  not modelled, and the two zeros are one value, which counts as the positive zero when
  it is a divisor (the only divisors that can be zero in this program are \<open>OPT_N\<close> and
  a sum of absolute values).
\<close>

datatype fp = Fin real | PInf | NInf | NaN

fun fp_add :: "fp \<Rightarrow> fp \<Rightarrow> fp" where
  "fp_add NaN y = NaN"
| "fp_add x NaN = NaN"
| "fp_add (Fin a) (Fin b) = Fin (a + b)"
| "fp_add (Fin a) y = y"
| "fp_add x (Fin b) = x"
| "fp_add PInf PInf = PInf"
| "fp_add NInf NInf = NInf"
| "fp_add PInf NInf = NaN"
| "fp_add NInf PInf = NaN"

fun fp_neg :: "fp \<Rightarrow> fp" where
  "fp_neg (Fin a) = Fin (- a)"
| "fp_neg PInf = NInf"
| "fp_neg NInf = PInf"
| "fp_neg NaN = NaN"

definition fp_sub :: "fp \<Rightarrow> fp \<Rightarrow> fp" where
  "fp_sub x y = fp_add x (fp_neg y)"

fun fabs :: "fp \<Rightarrow> fp" where
  "fabs (Fin a) = Fin \<bar>a\<bar>"
| "fabs PInf = PInf"
| "fabs NInf = PInf"
| "fabs NaN = NaN"

fun fp_div :: "fp \<Rightarrow> fp \<Rightarrow> fp" where
  "fp_div NaN y = NaN"
| "fp_div x NaN = NaN"
| "fp_div (Fin a) (Fin b) =
     (if b = 0 then (if a = 0 then NaN else if 0 < a then PInf else NInf)
      else Fin (a / b))"
| "fp_div (Fin a) y = Fin 0"
| "fp_div PInf (Fin b) = (if 0 \<le> b then PInf else NInf)"
| "fp_div NInf (Fin b) = (if 0 \<le> b then NInf else PInf)"
| "fp_div x y = NaN"

fun fp_gt :: "fp \<Rightarrow> fp \<Rightarrow> bool" where
  "fp_gt (Fin a) (Fin b) = (b < a)"
| "fp_gt PInf (Fin b) = True"
| "fp_gt PInf NInf = True"
| "fp_gt (Fin a) NInf = True"
| "fp_gt x y = False"

definition fp_of_int :: "int \<Rightarrow> fp" where
  "fp_of_int n = Fin (of_int n)"

section \<open>The aggregator\<close>

text \<open>
  \<open>TOptionValue\<close>, as \<open>main\<close> uses it, and the three accumulators of \<open>main\<close>. The arrays
  \<open>callValueGPU\<close> and \<open>optionData\<close> are functions of the index; the loops read them
  at indices below \<open>OPT_N\<close> only. The option data is of any type \<open>'o\<close>: \<open>main\<close>
  only hands it to \<open>BlackScholesCall\<close>, which is a parameter here.
\<close>

record TOptionValue =
  Expected :: fp
  Confidence :: fp

record sum_state =
  sumDelta :: fp
  sumRef :: fp
  sumReserve :: fp

text \<open>The value of \<open>delta\<close> for option \<open>i\<close>, lines 362 and 405.\<close>

definition delta_of ::
  "('o \<Rightarrow> fp) \<Rightarrow> (nat \<Rightarrow> 'o) \<Rightarrow> (nat \<Rightarrow> TOptionValue) \<Rightarrow> nat \<Rightarrow> fp" where
  "delta_of BlackScholesCall optData callValueGPU i =
     fabs (fp_sub (BlackScholesCall (optData i)) (Expected (callValueGPU i)))"

text \<open>
  The body of the comparison loop, lines 361-369 and again 404-412. The program takes the
  difference in single precision and adds up in double precision; here both are the
  operations on \<open>fp\<close> above, so a property that depends on the rounding of a finite
  result is not a property of this model.
\<close>

definition compare_step ::
  "('o \<Rightarrow> fp) \<Rightarrow> (nat \<Rightarrow> 'o) \<Rightarrow> (nat \<Rightarrow> TOptionValue) \<Rightarrow> sum_state \<Rightarrow> nat \<Rightarrow> sum_state" where
  "compare_step BlackScholesCall optData callValueGPU s i =
     (let callValueBS_i = BlackScholesCall (optData i);
          delta = fabs (fp_sub callValueBS_i (Expected (callValueGPU i)));
          ref = callValueBS_i;
          s = s\<lparr>sumDelta := fp_add (sumDelta s) delta\<rparr>;
          s = s\<lparr>sumRef := fp_add (sumRef s) (fabs ref)\<rparr>
      in if fp_gt delta (Fin (1 / 1000000))
         then s\<lparr>sumReserve := fp_add (sumReserve s) (fp_div (Confidence (callValueGPU i)) delta)\<rparr>
         else s)"

text \<open>
  One comparison, lines 356-376 and again 399-419: the accumulators are set to zero,
  the loop runs over all options, and \<open>sumReserve\<close> is divided by \<open>OPT_N\<close>.
\<close>

definition compare_results ::
  "('o \<Rightarrow> fp) \<Rightarrow> (nat \<Rightarrow> 'o) \<Rightarrow> (nat \<Rightarrow> TOptionValue) \<Rightarrow> int \<Rightarrow> sum_state \<Rightarrow> sum_state" where
  "compare_results BlackScholesCall optData callValueGPU OPT_N s =
     (let s = s\<lparr>sumDelta := Fin 0\<rparr>;
          s = s\<lparr>sumRef := Fin 0\<rparr>;
          s = s\<lparr>sumReserve := Fin 0\<rparr>;
          s = foldl (compare_step BlackScholesCall optData callValueGPU) s [0..<nat OPT_N]
      in s\<lparr>sumReserve := fp_div (sumReserve s) (fp_of_int OPT_N)\<rparr>)"

definition EXIT_SUCCESS :: int where
  "EXIT_SUCCESS = 0"

definition EXIT_FAILURE :: int where
  "EXIT_FAILURE = 1"

text \<open>What lines 455-459 print and return: the test summary.\<close>

record report =
  L1_norm :: fp
  average_reserve :: fp
  verdict :: string
  exit_status :: int

definition test_summary :: "sum_state \<Rightarrow> report" where
  "test_summary s =
     \<lparr>L1_norm = fp_div (sumDelta s) (sumRef s),
      average_reserve = sumReserve s,
      verdict = (if fp_gt (sumReserve s) (Fin 1)
                 then ''Test passed'' @ [CHR 0x0A] else ''Test failed!'' @ [CHR 0x0A]),
      exit_status = (if fp_gt (sumReserve s) (Fin 1) then EXIT_SUCCESS else EXIT_FAILURE)\<rparr>"

text \<open>
  Lines 330-459 of \<open>main\<close>. \<open>threaded\<close> and \<open>streamed\<close> are what a pass of the
  respective strategy does to the array \<open>callValueGPU\<close>; \<open>s\<close> is the content of the
  accumulators, which \<open>main\<close> declares without initialising them.
\<close>

definition main_run ::
  "bool \<Rightarrow> bool \<Rightarrow>
   ((nat \<Rightarrow> TOptionValue) \<Rightarrow> (nat \<Rightarrow> TOptionValue)) \<Rightarrow>
   ((nat \<Rightarrow> TOptionValue) \<Rightarrow> (nat \<Rightarrow> TOptionValue)) \<Rightarrow>
   ('o \<Rightarrow> fp) \<Rightarrow> (nat \<Rightarrow> 'o) \<Rightarrow> int \<Rightarrow> (nat \<Rightarrow> TOptionValue) \<Rightarrow> sum_state \<Rightarrow> report" where
  "main_run use_threads bqatest threaded streamed BlackScholesCall optData OPT_N callValueGPU s =
     (let st = (callValueGPU, s);
          st = (if use_threads \<or> bqatest
                then let callValueGPU = threaded (fst st)
                     in (callValueGPU,
                         compare_results BlackScholesCall optData callValueGPU OPT_N (snd st))
                else st);
          st = (if \<not> use_threads \<or> bqatest
                then let callValueGPU = streamed (fst st)
                     in (callValueGPU,
                         compare_results BlackScholesCall optData callValueGPU OPT_N (snd st))
                else st)
      in test_summary (snd st))"

text \<open>The accumulators at zero, and the values that are neither infinite nor not-a-number.\<close>

definition zero_sums :: sum_state where
  "zero_sums = \<lparr>sumDelta = Fin 0, sumRef = Fin 0, sumReserve = Fin 0\<rparr>"

definition is_finite :: "fp \<Rightarrow> bool" where
  "is_finite x = (case x of Fin a \<Rightarrow> True | _ \<Rightarrow> False)"

subsection \<open>Concrete portfolios\<close>

text \<open>
  The content of \<open>callValueGPU\<close> before any pass (lines 301-302), and some content of
  the uninitialised accumulators. Then eight options on two devices, where the first
  device owns options 0 to 3 and the second options 4 to 7, with results that equal
  the reference prices 4 and 6. Then options of reference price 4: with a result equal
  to it, with a result of 5 and a confidence of 2, and a portfolio whose option 0 has
  the former and whose other options have the latter.
\<close>

definition initial_values :: "nat \<Rightarrow> TOptionValue" where
  "initial_values i = \<lparr>Expected = Fin (- 1), Confidence = Fin (- 1)\<rparr>"

definition scenario_reference :: "nat \<Rightarrow> fp" where
  "scenario_reference i = (if i < 4 then Fin 4 else Fin 6)"

definition scenario_values :: "nat \<Rightarrow> TOptionValue" where
  "scenario_values i = \<lparr>Expected = (if i < 4 then Fin 4 else Fin 6), Confidence = Fin (1 / 2)\<rparr>"

definition garbage_sums :: sum_state where
  "garbage_sums = \<lparr>sumDelta = NaN, sumRef = PInf, sumReserve = Fin 7\<rparr>"

definition single_reference :: "nat \<Rightarrow> fp" where
  "single_reference i = Fin 4"

definition exact_values :: "nat \<Rightarrow> TOptionValue" where
  "exact_values i = \<lparr>Expected = Fin 4, Confidence = Fin (1 / 2)\<rparr>"

definition covered_values :: "nat \<Rightarrow> TOptionValue" where
  "covered_values i = \<lparr>Expected = Fin 5, Confidence = Fin 2\<rparr>"

definition mixed_values :: "nat \<Rightarrow> TOptionValue" where
  "mixed_values i = (if i = 0 then exact_values i else covered_values i)"

section \<open>The device drivers\<close>

text \<open>
  The calls that a driver makes on behalf of a plan, each with the plan it is made
  for: \<open>solverThread\<close> knows its plan by \<open>plan->device\<close>, \<open>multiSolver\<close> by the index
  \<open>i\<close> of \<open>plan[i]\<close>, \<open>streams[i]\<close> and \<open>events[i]\<close>.
  \<^item> \<open>StartTimer\<close>, \<open>StopTimer\<close>: \<open>sdkStartTimer\<close> and \<open>sdkStopTimer\<close> on \<open>hTimer\<close>;
  \<^item> \<open>GetDevices\<close>: the list of GPU devices of the platform (lines 110-111
    and 136);
  \<^item> \<open>QueueCreate\<close>: the \<open>sycl::queue\<close> on a device of that list;
  \<^item> \<open>InitMonteCarloGPU\<close>, \<open>MonteCarloGPU\<close>, \<open>CloseMonteCarloGPU\<close>: init, simulate
    and teardown;
  \<^item> \<open>WaitAndThrow\<close>, \<open>QueueWait\<close>: \<open>wait_and_throw()\<close> and \<open>wait()\<close> on the queue;
  \<^item> \<open>SubmitBarrier\<close>: \<open>ext_oneapi_submit_barrier()\<close>, whose event is kept in
    \<open>events[i]\<close>;
  \<^item> \<open>EventWaitAndThrow\<close>: \<open>wait_and_throw()\<close> on that event.
\<close>

datatype 'a call =
    StartTimer 'a
  | StopTimer 'a
  | GetDevices
  | QueueCreate 'a int
  | InitMonteCarloGPU 'a
  | MonteCarloGPU 'a
  | WaitAndThrow 'a
  | SubmitBarrier 'a
  | EventWaitAndThrow 'a
  | CloseMonteCarloGPU 'a
  | QueueWait 'a

text \<open>
  Both drivers are straight-line code and counted loops without a \<open>try\<close> block. Each
  of their calls may raise an exception; \<open>throws\<close> says which do. The driver makes its
  calls in program order up to the first one that raises, and the exception leaves the
  driver uncaught; otherwise the driver returns.
\<close>

datatype 'a outcome = Returned | Uncaught 'a

fun run_calls :: "('c \<Rightarrow> bool) \<Rightarrow> 'c list \<Rightarrow> 'c list \<times> 'c outcome" where
  "run_calls throws [] = ([], Returned)"
| "run_calls throws (c # cs) =
     (if throws c then ([c], Uncaught c)
      else (c # fst (run_calls throws cs), snd (run_calls throws cs)))"

text \<open>\<open>solverThread\<close>, lines 106-128.\<close>

definition solverThread_calls :: "TOptionPlan \<Rightarrow> int call list" where
  "solverThread_calls plan =
     [StartTimer (device plan),
      GetDevices,
      QueueCreate (device plan) (device plan),
      InitMonteCarloGPU (device plan),
      MonteCarloGPU (device plan),
      WaitAndThrow (device plan),
      StopTimer (device plan),
      CloseMonteCarloGPU (device plan),
      QueueWait (device plan)]"

definition solverThread ::
  "(int call \<Rightarrow> bool) \<Rightarrow> TOptionPlan \<Rightarrow> int call list \<times> int call outcome" where
  "solverThread throws plan = run_calls throws (solverThread_calls plan)"

text \<open>\<open>multiSolver\<close>, lines 130-170, one segment for each of its loops.\<close>

definition multiSolver_calls :: "TOptionPlan list \<Rightarrow> nat \<Rightarrow> nat call list" where
  "multiSolver_calls plan nPlans =
     [GetDevices] @
     map (\<lambda>i. QueueCreate i (device (plan ! i))) [0..<nPlans] @
     map InitMonteCarloGPU [0..<nPlans] @
     map WaitAndThrow [0..<nPlans] @
     concat (map (\<lambda>i. [MonteCarloGPU i, SubmitBarrier i]) [0..<nPlans]) @
     map EventWaitAndThrow [0..<nPlans] @
     [StopTimer 0] @
     map CloseMonteCarloGPU [0..<nPlans]"

definition multiSolver ::
  "(nat call \<Rightarrow> bool) \<Rightarrow> TOptionPlan list \<Rightarrow> nat \<Rightarrow> nat call list \<times> nat call outcome" where
  "multiSolver throws plan nPlans = run_calls throws (multiSolver_calls plan nPlans)"

text \<open>
  In a trace \<open>t\<close>, the call \<open>b\<close> is made after the first call \<open>a\<close>; and the calls that
  are an init.
\<close>

definition issued_before :: "'c \<Rightarrow> 'c \<Rightarrow> 'c list \<Rightarrow> bool" where
  "issued_before a b t = (b \<in> set (tl (dropWhile (\<lambda>c. c \<noteq> a) t)))"

fun is_init :: "'a call \<Rightarrow> bool" where
  "is_init (InitMonteCarloGPU i) = True"
| "is_init c = False"

subsection \<open>Concrete runs\<close>

text \<open>
  Runs in which no call raises, the plan of device 0 for four options, and the two
  plans of two devices for eight options.
\<close>

definition never :: "'c \<Rightarrow> bool" where
  "never c = False"

definition example_plan :: TOptionPlan where
  "example_plan = \<lparr>device = 0, optionCount = 4, optionData = 0, callValue = 0,
                    pathN = 262144, gridSize = 4\<rparr>"

definition example_plans :: "TOptionPlan list" where
  "example_plans = [example_plan, example_plan\<lparr>device := 1, optionData := 4, callValue := 4\<rparr>]"

section \<open>Properties of the plan builder\<close>

subsection \<open>What each loop leaves in the array\<close>

lemma base_counts_loop:
  "n \<le> length ps \<Longrightarrow>
   length (foldl (\<lambda>ps i. ps[i := (ps ! i)\<lparr>optionCount := q\<rparr>]) ps [0..<n]) = length ps \<and>
   (\<forall>j<length ps. foldl (\<lambda>ps i. ps[i := (ps ! i)\<lparr>optionCount := q\<rparr>]) ps [0..<n] ! j =
      (if j < n then (ps ! j)\<lparr>optionCount := q\<rparr> else ps ! j))"
proof (induction n)
  case 0
  then show ?case by simp
next
  case (Suc n)
  then show ?case by (auto simp: nth_list_update less_Suc_eq)
qed

lemma remainder_loop:
  "n \<le> length ps \<Longrightarrow>
   length (foldl (\<lambda>ps i. ps[i := (ps ! i)\<lparr>optionCount := optionCount (ps ! i) + 1\<rparr>]) ps [0..<n]) = length ps \<and>
   (\<forall>j<length ps. foldl (\<lambda>ps i. ps[i := (ps ! i)\<lparr>optionCount := optionCount (ps ! i) + 1\<rparr>]) ps [0..<n] ! j =
      (if j < n then (ps ! j)\<lparr>optionCount := optionCount (ps ! j) + 1\<rparr> else ps ! j))"
proof (induction n)
  case 0
  then show ?case by simp
next
  case (Suc n)
  then show ?case by (auto simp: nth_list_update less_Suc_eq)
qed

lemma assign_range_loop:
  "n \<le> length ps \<Longrightarrow>
   length (fst (foldl (assign_range env P) (ps, b) [0..<n])) = length ps \<and>
   snd (foldl (assign_range env P) (ps, b) [0..<n]) = b + (\<Sum>k<n. optionCount (ps ! k)) \<and>
   (\<forall>j<length ps. fst (foldl (assign_range env P) (ps, b) [0..<n]) ! j =
      (if j < n
       then (ps ! j)\<lparr>device := int j,
                     optionData := b + (\<Sum>k<j. optionCount (ps ! k)),
                     callValue := b + (\<Sum>k<j. optionCount (ps ! k)),
                     pathN := P,
                     gridSize := adjustGridSize env (int j) (optionCount (ps ! j))\<rparr>
       else ps ! j))"
proof (induction n)
  case 0
  then show ?case by simp
next
  case (Suc n)
  then show ?case
    by (auto simp: assign_range_def Let_def nth_list_update less_Suc_eq)
qed

subsection \<open>Arithmetic of the shares\<close>

lemma sdiv_nonneg: "0 \<le> a \<Longrightarrow> 0 < b \<Longrightarrow> a sdiv b = a div (b::int)"
  by (simp add: signed_divide_int_def sgn_if)

lemma smod_nonneg: "0 \<le> a \<Longrightarrow> 0 < b \<Longrightarrow> a smod b = a mod (b::int)"
  by (simp add: signed_modulo_int_def sgn_if)

lemma smod_bound: "0 < n \<Longrightarrow> nat (a smod int n) \<le> n"
proof (cases "0 < a")
  case True
  assume n: "0 < n"
  then have "a mod int n < int n" by simp
  then have "nat (a mod int n) \<le> n" by linarith
  with True n show ?thesis by (simp add: signed_modulo_int_def sgn_if)
next
  case False
  assume n: "0 < n"
  have "0 \<le> \<bar>a\<bar> mod int n" using n by simp
  with False show ?thesis by (simp add: signed_modulo_int_def sgn_if)
qed

lemma buildPlans_nth:
  assumes "0 < GPU_N"
  shows "\<exists>plans. buildPlans env uninit GPU_N OPT_N PATH_N = Inr plans \<and> length plans = GPU_N \<and>
     (\<forall>j<GPU_N. plans ! j =
        (uninit j)\<lparr>device := int j,
                    optionCount := share GPU_N OPT_N j,
                    optionData := base_of GPU_N OPT_N j,
                    callValue := base_of GPU_N OPT_N j,
                    pathN := PATH_N,
                    gridSize := adjustGridSize env (int j) (share GPU_N OPT_N j)\<rparr>)"
proof -
  define ps0 where "ps0 = map uninit [0..<GPU_N]"
  define ps1 where "ps1 = foldl (\<lambda>ps i. ps[i := (ps ! i)\<lparr>optionCount := OPT_N sdiv int GPU_N\<rparr>]) ps0 [0..<GPU_N]"
  define ps2 where "ps2 = foldl (\<lambda>ps i. ps[i := (ps ! i)\<lparr>optionCount := optionCount (ps ! i) + 1\<rparr>]) ps1 [0..<nat (OPT_N smod int GPU_N)]"
  define ps3 where "ps3 = fst (foldl (assign_range env PATH_N) (ps2, 0) [0..<GPU_N])"
  have l0: "length ps0 = GPU_N" by (simp add: ps0_def)
  have n0: "\<And>j. j < GPU_N \<Longrightarrow> ps0 ! j = uninit j" by (simp add: ps0_def)
  have b1: "length ps1 = GPU_N \<and> (\<forall>j<GPU_N. ps1 ! j = (uninit j)\<lparr>optionCount := OPT_N sdiv int GPU_N\<rparr>)"
    using base_counts_loop [of GPU_N ps0 "OPT_N sdiv int GPU_N"] l0 n0
    by (simp add: ps1_def)
  have r: "nat (OPT_N smod int GPU_N) \<le> length ps1"
    using smod_bound [OF assms] b1 by simp
  have b2: "length ps2 = GPU_N \<and> (\<forall>j<GPU_N. ps2 ! j = (uninit j)\<lparr>optionCount := share GPU_N OPT_N j\<rparr>)"
    using remainder_loop [OF r] b1
    by (simp add: ps2_def share_def)
  have b3: "length ps3 = GPU_N \<and> (\<forall>j<GPU_N. ps3 ! j =
        (uninit j)\<lparr>device := int j,
                    optionCount := share GPU_N OPT_N j,
                    optionData := base_of GPU_N OPT_N j,
                    callValue := base_of GPU_N OPT_N j,
                    pathN := PATH_N,
                    gridSize := adjustGridSize env (int j) (share GPU_N OPT_N j)\<rparr>)"
    using assign_range_loop [of GPU_N ps2 env PATH_N 0] b2
    by (simp add: ps3_def base_of_def)
  have "buildPlans env uninit GPU_N OPT_N PATH_N = Inr ps3"
    using assms by (simp add: buildPlans_def Let_def ps3_def ps2_def ps1_def ps0_def)
  with b3 show ?thesis by blast
qed

lemma share_sum:
  assumes "0 < GPU_N" "0 \<le> OPT_N"
  shows "base_of GPU_N OPT_N GPU_N = OPT_N"
proof -
  define q where "q = OPT_N div int GPU_N"
  define r where "r = nat (OPT_N mod int GPU_N)"
  have rn: "r < GPU_N" using assms by (simp add: r_def nat_less_iff)
  have ind: "\<And>m. (\<Sum>k<m. (if k < r then 1 else 0 :: int)) = int (min m r)"
  proof -
    fix m show "(\<Sum>k<m. (if k < r then 1 else 0 :: int)) = int (min m r)"
      by (induction m) auto
  qed
  have "base_of GPU_N OPT_N GPU_N = (\<Sum>k<GPU_N. q + (if k < r then 1 else 0))"
    using assms by (simp add: base_of_def share_def sdiv_nonneg smod_nonneg q_def r_def)
  also have "\<dots> = int GPU_N * q + int (min GPU_N r)"
    by (simp add: sum.distrib ind)
  also have "\<dots> = int GPU_N * q + OPT_N mod int GPU_N"
    using rn assms by (simp add: r_def min_def)
  also have "\<dots> = OPT_N" by (simp add: q_def)
  finally show ?thesis .
qed

lemma share_nonneg: "0 < GPU_N \<Longrightarrow> 0 \<le> OPT_N \<Longrightarrow> 0 \<le> share GPU_N OPT_N i"
  by (simp add: share_def sdiv_nonneg pos_imp_zdiv_nonneg_iff)

lemma base_of_Suc: "base_of GPU_N OPT_N (Suc i) = base_of GPU_N OPT_N i + share GPU_N OPT_N i"
  by (simp add: base_of_def)

lemma base_of_mono:
  assumes "0 < GPU_N" "0 \<le> OPT_N" "i \<le> j"
  shows "base_of GPU_N OPT_N i \<le> base_of GPU_N OPT_N j"
  using assms(3)
proof (induction j)
  case 0
  then show ?case by simp
next
  case (Suc j)
  then show ?case
    using share_nonneg [OF assms(1,2), of j]
    by (cases "i = Suc j") (auto simp: base_of_Suc)
qed

lemma base_of_0: "base_of GPU_N OPT_N 0 = 0"
  by (simp add: base_of_def)

lemma ranges_union:
  assumes "0 < GPU_N" "0 \<le> OPT_N"
  shows "(\<Union>i<n. {base_of GPU_N OPT_N i ..< base_of GPU_N OPT_N i + share GPU_N OPT_N i})
           = {0 ..< base_of GPU_N OPT_N n}"
proof (induction n)
  case 0
  then show ?case by (simp add: base_of_0)
next
  case (Suc n)
  have a: "0 \<le> base_of GPU_N OPT_N n"
    using base_of_mono [OF assms, of 0 n] by (simp add: base_of_0)
  have b: "0 \<le> share GPU_N OPT_N n" by (rule share_nonneg [OF assms])
  have "{0 ..< base_of GPU_N OPT_N n} \<union>
          {base_of GPU_N OPT_N n ..< base_of GPU_N OPT_N n + share GPU_N OPT_N n}
        = {0 ..< base_of GPU_N OPT_N n + share GPU_N OPT_N n}"
    using a b by (intro ivl_disj_un) auto
  then show ?case using Suc by (simp add: lessThan_Suc base_of_Suc Un_commute)
qed

lemma ranges_disjoint:
  assumes "0 < GPU_N" "0 \<le> OPT_N" "i < j"
  shows "{base_of GPU_N OPT_N i ..< base_of GPU_N OPT_N i + share GPU_N OPT_N i} \<inter>
         {base_of GPU_N OPT_N j ..< base_of GPU_N OPT_N j + share GPU_N OPT_N j} = {}"
proof -
  have "base_of GPU_N OPT_N (Suc i) \<le> base_of GPU_N OPT_N j"
    using assms by (intro base_of_mono) auto
  then show ?thesis by (auto simp: base_of_Suc)
qed

text \<open>
  Every count and every range end lies between 0 and \<open>OPT_N\<close>: the \<open>int\<close> arithmetic of
  the plan builder stays within the range of the operands it was given.
\<close>

lemma share_bounded:
  assumes "0 < GPU_N" "0 \<le> OPT_N" "i < GPU_N"
  shows "0 \<le> base_of GPU_N OPT_N i"
    and "base_of GPU_N OPT_N i + share GPU_N OPT_N i \<le> OPT_N"
proof -
  show "0 \<le> base_of GPU_N OPT_N i"
    using base_of_mono [OF assms(1,2), of 0 i] by (simp add: base_of_0)
  have "base_of GPU_N OPT_N (Suc i) \<le> base_of GPU_N OPT_N GPU_N"
    using assms(3) by (intro base_of_mono [OF assms(1,2)]) simp
  then show "base_of GPU_N OPT_N i + share GPU_N OPT_N i \<le> OPT_N"
    by (simp add: base_of_Suc share_sum [OF assms(1,2)])
qed

subsection \<open>Partition of the portfolio\<close>

text \<open>
  C1. For every device count of at least one and every total option count of at least
  zero, the plan builder returns one plan per device; the ranges of the plans are
  contiguous (the first starts at 0 and each next one starts where the previous one
  ends), pairwise disjoint, their union is exactly \<open>[0, OPT_N)\<close>, and the option counts
  add up to \<open>OPT_N\<close>.
\<close>

theorem plan_partition:
  assumes "1 \<le> GPU_N" and "0 \<le> OPT_N"
  shows "\<exists>plans. buildPlans env uninit GPU_N OPT_N PATH_N = Inr plans \<and>
           length plans = GPU_N \<and>
           (\<forall>i<GPU_N. \<forall>j<GPU_N. i \<noteq> j \<longrightarrow>
              plan_range (plans ! i) \<inter> plan_range (plans ! j) = {}) \<and>
           (\<Union>i<GPU_N. plan_range (plans ! i)) = {0..<OPT_N} \<and>
           (\<Sum>i<GPU_N. optionCount (plans ! i)) = OPT_N \<and>
           (\<forall>i<GPU_N. optionData (plans ! i) = callValue (plans ! i) \<and>
              0 \<le> optionCount (plans ! i)) \<and>
           callValue (plans ! 0) = 0 \<and>
           (\<forall>i. Suc i < GPU_N \<longrightarrow>
              callValue (plans ! Suc i) = callValue (plans ! i) + optionCount (plans ! i))"
proof -
  have pos: "0 < GPU_N" using assms(1) by simp
  obtain plans where run: "buildPlans env uninit GPU_N OPT_N PATH_N = Inr plans"
    and len: "length plans = GPU_N"
    and nth: "\<And>j. j < GPU_N \<Longrightarrow> plans ! j =
        (uninit j)\<lparr>device := int j,
                    optionCount := share GPU_N OPT_N j,
                    optionData := base_of GPU_N OPT_N j,
                    callValue := base_of GPU_N OPT_N j,
                    pathN := PATH_N,
                    gridSize := adjustGridSize env (int j) (share GPU_N OPT_N j)\<rparr>"
    using buildPlans_nth [OF pos, of env uninit OPT_N PATH_N] by blast
  have rng: "\<And>j. j < GPU_N \<Longrightarrow> plan_range (plans ! j) =
      {base_of GPU_N OPT_N j ..< base_of GPU_N OPT_N j + share GPU_N OPT_N j}"
    by (simp add: nth plan_range_def)
  have cnt: "\<And>j. j < GPU_N \<Longrightarrow> optionCount (plans ! j) = share GPU_N OPT_N j"
    by (simp add: nth)
  have off: "\<And>j. j < GPU_N \<Longrightarrow> callValue (plans ! j) = base_of GPU_N OPT_N j"
    by (simp add: nth)
  have disj: "\<forall>i<GPU_N. \<forall>j<GPU_N. i \<noteq> j \<longrightarrow>
      plan_range (plans ! i) \<inter> plan_range (plans ! j) = {}"
  proof (intro allI impI)
    fix i j assume ij: "i < GPU_N" "j < GPU_N" "i \<noteq> j"
    show "plan_range (plans ! i) \<inter> plan_range (plans ! j) = {}"
    proof (cases "i < j")
      case True
      then show ?thesis
        using ranges_disjoint [OF pos assms(2) True] ij by (simp add: rng)
    next
      case False
      with ij have "j < i" by simp
      then show ?thesis
        using ranges_disjoint [OF pos assms(2), of j i] ij by (simp add: rng Int_commute)
    qed
  qed
  have un: "(\<Union>i<GPU_N. plan_range (plans ! i)) = {0..<OPT_N}"
    using ranges_union [OF pos assms(2), of GPU_N] share_sum [OF pos assms(2)]
    by (simp add: rng)
  have total: "(\<Sum>i<GPU_N. optionCount (plans ! i)) = OPT_N"
    using share_sum [OF pos assms(2)] by (simp add: cnt base_of_def)
  have same: "\<forall>i<GPU_N. optionData (plans ! i) = callValue (plans ! i) \<and>
      0 \<le> optionCount (plans ! i)"
    using share_nonneg [OF pos assms(2)] by (simp add: nth)
  have first: "callValue (plans ! 0) = 0"
    using pos by (simp add: off base_of_0)
  have step: "\<forall>i. Suc i < GPU_N \<longrightarrow>
      callValue (plans ! Suc i) = callValue (plans ! i) + optionCount (plans ! i)"
    by (simp add: off cnt base_of_Suc)
  from run len disj un total same first step show ?thesis by blast
qed

theorem plan_partition_witness:
  "\<exists>plans. buildPlans example_env example_uninit 2 8 262144 = Inr plans \<and>
     length plans = 2 \<and>
     plan_range (plans ! 0) \<inter> plan_range (plans ! 1) = {} \<and>
     plan_range (plans ! 0) \<union> plan_range (plans ! 1) = {0..<8} \<and>
     optionCount (plans ! 0) + optionCount (plans ! 1) = 8"
proof -
  have h1: "(1::nat) \<le> 2" and h2: "(0::int) \<le> 8" by simp_all
  obtain plans where p: "buildPlans example_env example_uninit 2 8 262144 = Inr plans"
      "length plans = 2"
      "\<forall>i<2. \<forall>j<2. i \<noteq> j \<longrightarrow> plan_range (plans ! i) \<inter> plan_range (plans ! j) = {}"
      "(\<Union>i<2. plan_range (plans ! i)) = {0..<8}"
      "(\<Sum>i<2. optionCount (plans ! i)) = 8"
    using plan_partition [OF h1 h2, of example_env example_uninit 262144] by blast
  have two: "{..<2::nat} = {0, 1}" by auto
  from p(3) have "plan_range (plans ! 0) \<inter> plan_range (plans ! 1) = {}" by simp
  moreover from p(4) have "plan_range (plans ! 0) \<union> plan_range (plans ! 1) = {0..<8}"
    by (simp add: two)
  moreover from p(5) have "optionCount (plans ! 0) + optionCount (plans ! 1) = 8"
    by (simp add: two)
  ultimately show ?thesis using p(1,2) by blast
qed

subsection \<open>Distribution of the remainder\<close>

text \<open>
  C9. For 17 options and 4 devices the option counts are 5, 4, 4, 4 in device order;
  in general every device gets \<open>OPT_N div GPU_N\<close> options and the first
  \<open>OPT_N mod GPU_N\<close> devices get one more.
\<close>

theorem remainder_distribution:
  "(\<exists>plans. buildPlans env uninit 4 17 PATH_N = Inr plans \<and>
      map optionCount plans = [5, 4, 4, 4]) \<and>
   (\<forall>GPU_N OPT_N. 1 \<le> GPU_N \<and> 0 \<le> OPT_N \<longrightarrow>
      (\<exists>plans. buildPlans env uninit GPU_N OPT_N PATH_N = Inr plans \<and>
         length plans = GPU_N \<and>
         (\<forall>i<GPU_N. optionCount (plans ! i) =
            OPT_N div int GPU_N + (if int i < OPT_N mod int GPU_N then 1 else 0))))"
proof (intro conjI allI impI)
  obtain plans where run: "buildPlans env uninit 4 17 PATH_N = Inr plans"
    and len: "length plans = 4"
    and nth: "\<forall>j<4. plans ! j =
        (uninit j)\<lparr>device := int j,
                    optionCount := share 4 17 j,
                    optionData := base_of 4 17 j,
                    callValue := base_of 4 17 j,
                    pathN := PATH_N,
                    gridSize := adjustGridSize env (int j) (share 4 17 j)\<rparr>"
    using buildPlans_nth [of 4 env uninit 17 PATH_N] by auto
  have q: "(17::int) sdiv 4 = 4" and r: "(17::int) smod 4 = 1"
    by (simp_all add: signed_divide_int_def signed_modulo_int_def)
  have "map optionCount plans = [5, 4, 4, 4]"
  proof (rule nth_equalityI)
    show "length (map optionCount plans) = length [5, 4, 4, 4 :: int]" by (simp add: len)
  next
    fix i assume "i < length (map optionCount plans)"
    then have i: "i < 4" by (simp add: len)
    then have "i = 0 \<or> i = 1 \<or> i = 2 \<or> i = 3" by auto
    then show "map optionCount plans ! i = [5, 4, 4, 4] ! i"
      using nth len by (auto simp: share_def q r)
  qed
  with run show "\<exists>plans. buildPlans env uninit 4 17 PATH_N = Inr plans \<and>
      map optionCount plans = [5, 4, 4, 4]" by (intro exI [of _ plans] conjI)
next
  fix GPU_N :: nat and OPT_N :: int
  assume h: "1 \<le> GPU_N \<and> 0 \<le> OPT_N"
  then have pos: "0 < GPU_N" and nn: "0 \<le> OPT_N" by simp_all
  obtain plans where run: "buildPlans env uninit GPU_N OPT_N PATH_N = Inr plans"
    and len: "length plans = GPU_N"
    and nth: "\<And>j. j < GPU_N \<Longrightarrow> plans ! j =
        (uninit j)\<lparr>device := int j,
                    optionCount := share GPU_N OPT_N j,
                    optionData := base_of GPU_N OPT_N j,
                    callValue := base_of GPU_N OPT_N j,
                    pathN := PATH_N,
                    gridSize := adjustGridSize env (int j) (share GPU_N OPT_N j)\<rparr>"
    using buildPlans_nth [OF pos, of env uninit OPT_N PATH_N] by blast
  have "\<forall>i<GPU_N. optionCount (plans ! i) =
      OPT_N div int GPU_N + (if int i < OPT_N mod int GPU_N then 1 else 0)"
    using pos nn by (auto simp: nth share_def sdiv_nonneg smod_nonneg)
  with run len show "\<exists>plans. buildPlans env uninit GPU_N OPT_N PATH_N = Inr plans \<and>
         length plans = GPU_N \<and>
         (\<forall>i<GPU_N. optionCount (plans ! i) =
            OPT_N div int GPU_N + (if int i < OPT_N mod int GPU_N then 1 else 0))" by blast
qed

theorem remainder_distribution_witness:
  "(\<exists>plans. buildPlans example_env example_uninit 4 17 262144 = Inr plans \<and>
      map optionCount plans = [5, 4, 4, 4]) \<and>
   (1::nat) \<le> 3 \<and> (0::int) \<le> 8 \<and>
   (\<exists>plans. buildPlans example_env example_uninit 3 8 262144 = Inr plans \<and>
      length plans = 3 \<and>
      optionCount (plans ! 0) = 3 \<and> optionCount (plans ! 1) = 3 \<and>
      optionCount (plans ! 2) = 2)"
proof -
  note t = remainder_distribution [of example_env example_uninit 262144]
  from t have a: "\<exists>plans. buildPlans example_env example_uninit 4 17 262144 = Inr plans \<and>
      map optionCount plans = [5, 4, 4, 4]" by blast
  from t have "1 \<le> (3::nat) \<and> 0 \<le> (8::int) \<longrightarrow>
      (\<exists>plans. buildPlans example_env example_uninit 3 8 262144 = Inr plans \<and>
         length plans = 3 \<and>
         (\<forall>i<3. optionCount (plans ! i) =
            8 div int 3 + (if int i < 8 mod int 3 then 1 else 0)))" by blast
  then obtain plans where p: "buildPlans example_env example_uninit 3 8 262144 = Inr plans"
      "length plans = 3"
      "\<forall>i<3. optionCount (plans ! i) = 8 div int 3 + (if int i < 8 mod int 3 then 1 else 0)"
    by auto
  from p(3) have "optionCount (plans ! 0) = 3" "optionCount (plans ! 1) = 3"
    "optionCount (plans ! 2) = 2" by simp_all
  with p(1,2) a show ?thesis by auto
qed

subsection \<open>No devices\<close>

text \<open>
  C2. With a device count of zero the plan builder has no check of its own: the bound
  \<open>OPT_N % GPU_N\<close> of the remainder loop is evaluated and is a division by zero, both
  for the plan builder alone and for \<open>main\<close> on a host without devices.
\<close>

theorem no_devices_divides_by_zero:
  "buildPlans env uninit 0 OPT_N PATH_N = Inl DivisionByZero \<and>
   main_plans no_device_env uninit strongScaling = Inl DivisionByZero"
  by (simp add: buildPlans_def main_plans_def problem_size_def no_device_env_def
      adjustProblemSize_def INT_MIN_def INT_MAX_def)

section \<open>Properties of the capability scaling\<close>

lemma adjustGridSize_selected:
  "adjustGridSize env GPUIndex defaultGridSize =
     min defaultGridSize (sint (max_compute_units env (gpu_selected env) * 40))"
  by (simp add: adjustGridSize_def Let_def min_def)

text \<open>
  C7. On the host with a 64-unit and a 16-unit GPU, \<open>adjustGridSize\<close> for device 1 and a
  default grid size of 4096 returns 2560, the ceiling of the selected device 0; the
  ceiling of device 1 itself is 640.
\<close>

theorem adjustGridSize_ignores_GPUIndex:
  "adjustGridSize example_env 1 4096 = 2560 \<and>
   min 4096 (sint (max_compute_units example_env 1) * 40) = 640"
  by (simp add: adjustGridSize_def example_env_def)

lemma adjustProblemSize_le: "adjustProblemSize env GPU_N default_nOptions \<le> default_nOptions"
proof -
  have "foldl (\<lambda>nOptions i.
              let cudaCores = sint (max_compute_units env (gpu_selected env))
              in if cudaCores \<le> 32
                 then (if nOptions < cudaCores sdiv 2 then nOptions else cudaCores sdiv 2)
                 else nOptions) d [0..<n] \<le> d" for n d
    by (induction n) (auto simp: Let_def)
  then show ?thesis by (simp add: adjustProblemSize_def)
qed

lemma adjustProblemSize_selected:
  "adjustProblemSize env GPU_N default_nOptions =
     (if 0 < GPU_N \<and> sint (max_compute_units env (gpu_selected env)) \<le> 32
      then min default_nOptions (sint (max_compute_units env (gpu_selected env)) sdiv 2)
      else default_nOptions)"
proof -
  have "foldl (\<lambda>nOptions i.
              let cudaCores = k
              in if cudaCores \<le> 32
                 then (if nOptions < cudaCores sdiv 2 then nOptions else cudaCores sdiv 2)
                 else nOptions) d [0..<n] =
        (if 0 < n \<and> k \<le> 32 then min d (k sdiv 2) else d)" for n d and k :: int
    by (induction n) (auto simp: min_def Let_def)
  from this [of "sint (max_compute_units env (gpu_selected env))" default_nOptions "nat GPU_N"]
  show ?thesis
    unfolding adjustProblemSize_def by simp
qed

text \<open>
  C8. On the same host \<open>adjustProblemSize\<close> for two devices leaves the default of 8192
  options unchanged, although device 1 has 16 compute units, at most 32, and half of
  that is 8.
\<close>

theorem adjustProblemSize_ignores_devices:
  "adjustProblemSize example_env 2 8192 = 8192 \<and>
   sint (max_compute_units example_env 1) = 16 \<and>
   sint (max_compute_units example_env 1) sdiv 2 = 8"
  by (simp add: adjustProblemSize_def example_env_def eval_nat_numeral signed_divide_int_def)

section \<open>Properties of the aggregator\<close>

lemma compare_results_reset:
  "compare_results bs od cv OPT_N s = compare_results bs od cv OPT_N s'"
  by (cases s, cases s') (simp add: compare_results_def)

lemma main_run_last_pass:
  "main_run use_threads bqatest threaded streamed bs od OPT_N cv s =
     test_summary (compare_results bs od
       (if \<not> use_threads \<or> bqatest
        then streamed (if use_threads \<or> bqatest then threaded cv else cv)
        else threaded cv) OPT_N s')"
  by (auto simp add: main_run_def Let_def intro: arg_cong [where f = test_summary] compare_results_reset)

lemma reserve_loop:
  "sumReserve (foldl (compare_step bs od cv) s [0..<n]) =
     foldl fp_add (sumReserve s)
       (map (\<lambda>i. fp_div (Confidence (cv i)) (delta_of bs od cv i))
          (filter (\<lambda>i. fp_gt (delta_of bs od cv i) (Fin (1 / 1000000))) [0..<n]))"
  by (induction n) (simp_all add: compare_step_def Let_def delta_of_def)

lemma delta_loop:
  "sumDelta (foldl (compare_step bs od cv) s [0..<n]) =
     foldl fp_add (sumDelta s) (map (delta_of bs od cv) [0..<n])"
  by (induction n) (simp_all add: compare_step_def Let_def delta_of_def)

lemma ref_loop:
  "sumRef (foldl (compare_step bs od cv) s [0..<n]) =
     foldl fp_add (sumRef s) (map (\<lambda>i. fabs (bs (od i))) [0..<n])"
  by (induction n) (simp_all add: compare_step_def Let_def)

lemma delta_exact:
  "is_finite (bs (od i)) \<Longrightarrow> Expected (cv i) = bs (od i) \<Longrightarrow> delta_of bs od cv i = Fin 0"
  by (cases "bs (od i)") (simp_all add: delta_of_def fp_sub_def is_finite_def)

lemma foldl_zero: "(\<forall>x\<in>set xs. x = Fin 0) \<Longrightarrow> foldl fp_add (Fin 0) xs = Fin 0"
  by (induction xs) simp_all

lemma exact_loop:
  assumes "\<forall>i<n. is_finite (bs (od i)) \<and> Expected (cv i) = bs (od i)"
  shows "sumDelta (foldl (compare_step bs od cv) (s\<lparr>sumDelta := Fin 0, sumReserve := Fin 0\<rparr>) [0..<n]) = Fin 0 \<and>
         sumReserve (foldl (compare_step bs od cv) (s\<lparr>sumDelta := Fin 0, sumReserve := Fin 0\<rparr>) [0..<n]) = Fin 0"
proof -
  have d: "\<forall>i<n. delta_of bs od cv i = Fin 0"
    using assms delta_exact by blast
  then have f: "filter (\<lambda>i. fp_gt (delta_of bs od cv i) (Fin (1 / 1000000))) [0..<n] = []"
    by (auto simp: filter_empty_conv)
  from d have "foldl fp_add (Fin 0) (map (delta_of bs od cv) [0..<n]) = Fin 0"
    by (intro foldl_zero) auto
  then show ?thesis by (simp add: delta_loop reserve_loop f)
qed

lemma compare_results_zero:
  "compare_results bs od cv OPT_N s =
     (let a = foldl (compare_step bs od cv) zero_sums [0..<nat OPT_N]
      in a\<lparr>sumReserve := fp_div (sumReserve a) (fp_of_int OPT_N)\<rparr>)"
  by (cases s) (simp add: compare_results_def zero_sums_def)

lemma exact_run:
  assumes "0 < OPT_N"
    and "\<forall>i<nat OPT_N. is_finite (bs (od i)) \<and> Expected (cv i) = bs (od i)"
  shows "sumDelta (foldl (compare_step bs od cv) zero_sums [0..<nat OPT_N]) = Fin 0"
    and "sumReserve (foldl (compare_step bs od cv) zero_sums [0..<nat OPT_N]) = Fin 0"
    and "sumDelta (compare_results bs od cv OPT_N s) = Fin 0"
    and "sumReserve (compare_results bs od cv OPT_N s) = Fin 0"
proof -
  have z: "zero_sums = zero_sums\<lparr>sumDelta := Fin 0, sumReserve := Fin 0\<rparr>"
    by (simp add: zero_sums_def)
  show a: "sumDelta (foldl (compare_step bs od cv) zero_sums [0..<nat OPT_N]) = Fin 0"
    using exact_loop [where bs = bs and od = od and cv = cv and n = "nat OPT_N" and s = zero_sums]
      assms(2) z by simp
  show b: "sumReserve (foldl (compare_step bs od cv) zero_sums [0..<nat OPT_N]) = Fin 0"
    using exact_loop [where bs = bs and od = od and cv = cv and n = "nat OPT_N" and s = zero_sums]
      assms(2) z by simp
  show "sumDelta (compare_results bs od cv OPT_N s) = Fin 0"
    using a by (simp add: compare_results_zero [of _ _ _ _ s] Let_def)
  show "sumReserve (compare_results bs od cv OPT_N s) = Fin 0"
    using b assms(1) by (simp add: compare_results_zero [of _ _ _ _ s] Let_def fp_of_int_def)
qed

lemma test_summary_failed:
  "\<not> fp_gt (sumReserve s) (Fin 1) \<Longrightarrow>
     exit_status (test_summary s) = EXIT_FAILURE \<and>
     verdict (test_summary s) = ''Test failed!'' @ [CHR 0x0A] \<and>
     average_reserve (test_summary s) = sumReserve s"
  by (simp add: test_summary_def)

text \<open>
  What a comparison leaves in \<open>sumReserve\<close> and in \<open>sumDelta\<close>: the terms
  \<open>Confidence / delta\<close> of the options with \<open>delta > 1e-6\<close>, added up in index order
  from zero and divided by \<open>OPT_N\<close>, and the values of \<open>delta\<close> of all options, added
  up from zero.
\<close>

lemma compare_results_reserve:
  "sumReserve (compare_results bs od cv OPT_N s) =
     fp_div (foldl fp_add (Fin 0)
               (map (\<lambda>i. fp_div (Confidence (cv i)) (delta_of bs od cv i))
                  (filter (\<lambda>i. fp_gt (delta_of bs od cv i) (Fin (1 / 1000000)))
                     [0..<nat OPT_N])))
            (fp_of_int OPT_N)"
  by (simp add: compare_results_zero [of _ _ _ _ s] Let_def reserve_loop zero_sums_def)

lemma compare_results_delta:
  "sumDelta (compare_results bs od cv OPT_N s) =
     foldl fp_add (Fin 0) (map (delta_of bs od cv) [0..<nat OPT_N])"
  by (simp add: compare_results_zero [of _ _ _ _ s] Let_def delta_loop zero_sums_def)

text \<open>
  C4. In the comparison loop the term \<open>Confidence / delta\<close> of option \<open>i\<close> is added to
  \<open>sumReserve\<close> exactly when \<open>delta > 1e-6\<close>: in one iteration, in what a whole
  comparison returns, and in the average reserve that \<open>main\<close> reports for the results
  of its last pass. So when the portfolio is not empty and every result equals its
  finite reference price, \<open>sumDelta\<close> and \<open>sumReserve\<close> are 0 after the loop, the
  average reserve is 0, and the run fails, whichever strategy produced the results.
\<close>

theorem reserve_skipped_for_exact_matches:
  "sumReserve (compare_step bs od cv s i) =
     (if fp_gt (delta_of bs od cv i) (Fin (1 / 1000000))
      then fp_add (sumReserve s) (fp_div (Confidence (cv i)) (delta_of bs od cv i))
      else sumReserve s) \<and>
   sumReserve (compare_results bs od cv OPT_N s) =
     fp_div (foldl fp_add (Fin 0)
               (map (\<lambda>i. fp_div (Confidence (cv i)) (delta_of bs od cv i))
                  (filter (\<lambda>i. fp_gt (delta_of bs od cv i) (Fin (1 / 1000000)))
                     [0..<nat OPT_N])))
            (fp_of_int OPT_N) \<and>
   sumDelta (compare_results bs od cv OPT_N s) =
     foldl fp_add (Fin 0) (map (delta_of bs od cv) [0..<nat OPT_N]) \<and>
   (let last = (if \<not> use_threads \<or> bqatest
                then streamed (if use_threads \<or> bqatest then threaded cv0 else cv0)
                else threaded cv0)
    in average_reserve
         (main_run use_threads bqatest threaded streamed bs od OPT_N cv0 s0) =
       fp_div (foldl fp_add (Fin 0)
                 (map (\<lambda>i. fp_div (Confidence (last i)) (delta_of bs od last i))
                    (filter (\<lambda>i. fp_gt (delta_of bs od last i) (Fin (1 / 1000000)))
                       [0..<nat OPT_N])))
              (fp_of_int OPT_N)) \<and>
   (0 < OPT_N \<and> (\<forall>i<nat OPT_N. is_finite (bs (od i)) \<and> Expected (cv i) = bs (od i)) \<longrightarrow>
      sumDelta (foldl (compare_step bs od cv) zero_sums [0..<nat OPT_N]) = Fin 0 \<and>
      sumReserve (foldl (compare_step bs od cv) zero_sums [0..<nat OPT_N]) = Fin 0 \<and>
      sumDelta (compare_results bs od cv OPT_N s) = Fin 0 \<and>
      sumReserve (compare_results bs od cv OPT_N s) = Fin 0 \<and>
      average_reserve
        (main_run use_threads bqatest (\<lambda>a. cv) (\<lambda>a. cv) bs od OPT_N cv0 s0) = Fin 0 \<and>
      exit_status
        (main_run use_threads bqatest (\<lambda>a. cv) (\<lambda>a. cv) bs od OPT_N cv0 s0) = EXIT_FAILURE \<and>
      verdict
        (main_run use_threads bqatest (\<lambda>a. cv) (\<lambda>a. cv) bs od OPT_N cv0 s0) =
          ''Test failed!'' @ [CHR 0x0A])"
proof (intro conjI impI)
  show "sumReserve (compare_step bs od cv s i) =
     (if fp_gt (delta_of bs od cv i) (Fin (1 / 1000000))
      then fp_add (sumReserve s) (fp_div (Confidence (cv i)) (delta_of bs od cv i))
      else sumReserve s)"
    by (simp add: compare_step_def Let_def delta_of_def)
next
  show "sumReserve (compare_results bs od cv OPT_N s) =
     fp_div (foldl fp_add (Fin 0)
               (map (\<lambda>i. fp_div (Confidence (cv i)) (delta_of bs od cv i))
                  (filter (\<lambda>i. fp_gt (delta_of bs od cv i) (Fin (1 / 1000000)))
                     [0..<nat OPT_N])))
            (fp_of_int OPT_N)"
    by (rule compare_results_reserve)
next
  show "sumDelta (compare_results bs od cv OPT_N s) =
     foldl fp_add (Fin 0) (map (delta_of bs od cv) [0..<nat OPT_N])"
    by (rule compare_results_delta)
next
  show "let last = (if \<not> use_threads \<or> bqatest
                then streamed (if use_threads \<or> bqatest then threaded cv0 else cv0)
                else threaded cv0)
    in average_reserve
         (main_run use_threads bqatest threaded streamed bs od OPT_N cv0 s0) =
       fp_div (foldl fp_add (Fin 0)
                 (map (\<lambda>i. fp_div (Confidence (last i)) (delta_of bs od last i))
                    (filter (\<lambda>i. fp_gt (delta_of bs od last i) (Fin (1 / 1000000)))
                       [0..<nat OPT_N])))
              (fp_of_int OPT_N)"
    unfolding Let_def
    by (subst main_run_last_pass [where s' = s0])
       (simp only: test_summary_def report.simps compare_results_reserve)
next
  assume h: "0 < OPT_N \<and> (\<forall>i<nat OPT_N. is_finite (bs (od i)) \<and> Expected (cv i) = bs (od i))"
  then have h1: "0 < OPT_N"
    and h2: "\<forall>i<nat OPT_N. is_finite (bs (od i)) \<and> Expected (cv i) = bs (od i)"
    by simp_all
  note ex = exact_run [where bs = bs and od = od and cv = cv and OPT_N = OPT_N, OF h1 h2]
  show "sumDelta (foldl (compare_step bs od cv) zero_sums [0..<nat OPT_N]) = Fin 0"
    by (rule ex(1))
  show "sumReserve (foldl (compare_step bs od cv) zero_sums [0..<nat OPT_N]) = Fin 0"
    by (rule ex(2))
  show "sumDelta (compare_results bs od cv OPT_N s) = Fin 0"
    by (rule ex(3))
  show "sumReserve (compare_results bs od cv OPT_N s) = Fin 0"
    by (rule ex(4))
  have run: "main_run use_threads bqatest (\<lambda>a. cv) (\<lambda>a. cv) bs od OPT_N cv0 s0 =
      test_summary (compare_results bs od cv OPT_N s0)"
    by (simp add: main_run_last_pass [where s' = s0])
  have "\<not> fp_gt (sumReserve (compare_results bs od cv OPT_N s0)) (Fin 1)"
    by (simp add: ex(4))
  from test_summary_failed [OF this]
  show "average_reserve
        (main_run use_threads bqatest (\<lambda>a. cv) (\<lambda>a. cv) bs od OPT_N cv0 s0) = Fin 0"
    and "exit_status
        (main_run use_threads bqatest (\<lambda>a. cv) (\<lambda>a. cv) bs od OPT_N cv0 s0) = EXIT_FAILURE"
    and "verdict
        (main_run use_threads bqatest (\<lambda>a. cv) (\<lambda>a. cv) bs od OPT_N cv0 s0) =
          ''Test failed!'' @ [CHR 0x0A]"
    by (simp_all add: run ex(4))
qed

text \<open>
  The eight options of the concrete portfolio on two devices: the plan builder gives
  options 0 to 3 to the first device and options 4 to 7 to the second.
\<close>

lemma scenario_plans:
  "\<exists>plans. buildPlans env uninit 2 8 PATH_N = Inr plans \<and>
     plan_range (plans ! 0) = {0..<4} \<and> plan_range (plans ! 1) = {4..<8}"
proof -
  obtain plans where run: "buildPlans env uninit 2 8 PATH_N = Inr plans"
    and nth: "\<forall>j<2. plans ! j =
        (uninit j)\<lparr>device := int j,
                    optionCount := share 2 8 j,
                    optionData := base_of 2 8 j,
                    callValue := base_of 2 8 j,
                    pathN := PATH_N,
                    gridSize := adjustGridSize env (int j) (share 2 8 j)\<rparr>"
    using buildPlans_nth [of 2 env uninit 8 PATH_N] by auto
  have s: "share 2 8 0 = 4" "share 2 8 (Suc 0) = 4"
    by (simp_all add: share_def signed_divide_int_def signed_modulo_int_def)
  have b: "base_of 2 8 0 = 0" "base_of 2 8 (Suc 0) = 4"
    using s by (simp_all add: base_of_def)
  from nth have "plan_range (plans ! 0) = {0..<4}" "plan_range (plans ! 1) = {4..<8}"
    by (simp_all add: plan_range_def s b)
  with run show ?thesis by blast
qed

lemma scenario_exact:
  "\<forall>i<nat 8. is_finite (scenario_reference (id i)) \<and>
      Expected (scenario_values i) = scenario_reference (id i)"
  by (simp add: scenario_reference_def scenario_values_def is_finite_def)

lemma mixed_deltas:
  "delta_of single_reference id mixed_values 0 = Fin 0"
  "delta_of single_reference id mixed_values (Suc 0) = Fin 1"
  "Confidence (mixed_values (Suc 0)) = Fin 2"
  by (simp_all add: delta_of_def single_reference_def mixed_values_def exact_values_def
      covered_values_def fp_sub_def)

lemma covered_deltas:
  "delta_of single_reference id covered_values 0 = Fin 1"
  "Confidence (covered_values 0) = Fin 2"
  by (simp_all add: delta_of_def single_reference_def covered_values_def fp_sub_def)

theorem reserve_skipped_for_exact_matches_witness:
  "sumReserve (compare_results single_reference id mixed_values 2 garbage_sums) = Fin 1 \<and>
   sumDelta (compare_results single_reference id mixed_values 2 garbage_sums) = Fin 1 \<and>
   average_reserve
     (main_run False False id (\<lambda>a. covered_values) single_reference id 1
        initial_values garbage_sums) = Fin 2 \<and>
   (0::int) < 8 \<and>
   sumDelta (compare_results scenario_reference id scenario_values 8 garbage_sums) = Fin 0 \<and>
   sumReserve (compare_results scenario_reference id scenario_values 8 garbage_sums) = Fin 0 \<and>
   average_reserve
     (main_run False False (\<lambda>a. scenario_values) (\<lambda>a. scenario_values) scenario_reference id 8
        initial_values garbage_sums) = Fin 0 \<and>
   exit_status
     (main_run False False (\<lambda>a. scenario_values) (\<lambda>a. scenario_values) scenario_reference id 8
        initial_values garbage_sums) = EXIT_FAILURE \<and>
   verdict
     (main_run False False (\<lambda>a. scenario_values) (\<lambda>a. scenario_values) scenario_reference id 8
        initial_values garbage_sums) = ''Test failed!'' @ [CHR 0x0A]"
proof -
  note m = reserve_skipped_for_exact_matches
    [where bs = single_reference and od = id and cv = mixed_values and OPT_N = 2
       and s = garbage_sums and i = 0
       and use_threads = False and bqatest = False and threaded = id
       and streamed = "\<lambda>a. covered_values" and ?cv0.0 = initial_values
       and ?s0.0 = garbage_sums]
  note c = reserve_skipped_for_exact_matches
    [where bs = single_reference and od = id and cv = covered_values and OPT_N = 1
       and s = garbage_sums and i = 0
       and use_threads = False and bqatest = False and threaded = id
       and streamed = "\<lambda>a. covered_values" and ?cv0.0 = initial_values
       and ?s0.0 = garbage_sums]
  note e = reserve_skipped_for_exact_matches
    [where bs = scenario_reference and od = id and cv = scenario_values and OPT_N = 8
       and s = garbage_sums and i = 0
       and use_threads = False and bqatest = False and threaded = id and streamed = id
       and ?cv0.0 = initial_values and ?s0.0 = garbage_sums]
  have two: "[0..<2] = [0, Suc 0]"
    by (simp add: eval_nat_numeral)
  from m have "sumReserve (compare_results single_reference id mixed_values 2 garbage_sums) =
      fp_div (foldl fp_add (Fin 0)
               (map (\<lambda>i. fp_div (Confidence (mixed_values i))
                          (delta_of single_reference id mixed_values i))
                  (filter (\<lambda>i. fp_gt (delta_of single_reference id mixed_values i)
                                (Fin (1 / 1000000)))
                     [0..<nat 2])))
            (fp_of_int 2)"
    by blast
  then have m1: "sumReserve (compare_results single_reference id mixed_values 2 garbage_sums) =
      Fin 1"
    by (simp add: two mixed_deltas fp_of_int_def)
  from m have "sumDelta (compare_results single_reference id mixed_values 2 garbage_sums) =
      foldl fp_add (Fin 0) (map (delta_of single_reference id mixed_values) [0..<nat 2])"
    by blast
  then have m2: "sumDelta (compare_results single_reference id mixed_values 2 garbage_sums) =
      Fin 1"
    by (simp add: two mixed_deltas)
  from c have "average_reserve
     (main_run False False id (\<lambda>a. covered_values) single_reference id 1
        initial_values garbage_sums) =
      fp_div (foldl fp_add (Fin 0)
               (map (\<lambda>i. fp_div (Confidence (covered_values i))
                          (delta_of single_reference id covered_values i))
                  (filter (\<lambda>i. fp_gt (delta_of single_reference id covered_values i)
                                (Fin (1 / 1000000)))
                     [0..<nat 1])))
            (fp_of_int 1)"
    by (simp add: Let_def)
  then have c1: "average_reserve
     (main_run False False id (\<lambda>a. covered_values) single_reference id 1
        initial_values garbage_sums) = Fin 2"
    by (simp add: covered_deltas fp_of_int_def)
  have h: "(0::int) < 8 \<and> (\<forall>i<nat 8. is_finite (scenario_reference (id i)) \<and>
      Expected (scenario_values i) = scenario_reference (id i))"
    using scenario_exact by simp
  from e h have e1:
    "sumDelta (compare_results scenario_reference id scenario_values 8 garbage_sums) = Fin 0 \<and>
     sumReserve (compare_results scenario_reference id scenario_values 8 garbage_sums) = Fin 0 \<and>
     average_reserve
       (main_run False False (\<lambda>a. scenario_values) (\<lambda>a. scenario_values) scenario_reference id 8
          initial_values garbage_sums) = Fin 0 \<and>
     exit_status
       (main_run False False (\<lambda>a. scenario_values) (\<lambda>a. scenario_values) scenario_reference id 8
          initial_values garbage_sums) = EXIT_FAILURE \<and>
     verdict
       (main_run False False (\<lambda>a. scenario_values) (\<lambda>a. scenario_values) scenario_reference id 8
          initial_values garbage_sums) = ''Test failed!'' @ [CHR 0x0A]"
    by blast
  from m1 m2 c1 e1 show ?thesis by simp
qed

text \<open>
  C3. The exit status is 0 exactly when the average reserve is greater than 1, and 1
  otherwise; a failed validation is the status 1 together with the line
  \<open>Test failed!\<close>, a value that \<open>main\<close> returns.
\<close>

theorem exit_status_by_average_reserve:
  "(exit_status (main_run use_threads bqatest threaded streamed bs od OPT_N cv s) = 0 \<longleftrightarrow>
      fp_gt (average_reserve (main_run use_threads bqatest threaded streamed bs od OPT_N cv s)) (Fin 1)) \<and>
   (exit_status (main_run use_threads bqatest threaded streamed bs od OPT_N cv s) = 1 \<longleftrightarrow>
      \<not> fp_gt (average_reserve (main_run use_threads bqatest threaded streamed bs od OPT_N cv s)) (Fin 1)) \<and>
   (verdict (main_run use_threads bqatest threaded streamed bs od OPT_N cv s) =
        ''Test failed!'' @ [CHR 0x0A] \<longleftrightarrow>
      exit_status (main_run use_threads bqatest threaded streamed bs od OPT_N cv s) = 1) \<and>
   (verdict (main_run use_threads bqatest threaded streamed bs od OPT_N cv s) =
        ''Test passed'' @ [CHR 0x0A] \<longleftrightarrow>
      exit_status (main_run use_threads bqatest threaded streamed bs od OPT_N cv s) = 0)"
  by (simp add: main_run_last_pass [where s' = s] test_summary_def EXIT_SUCCESS_def EXIT_FAILURE_def)

lemma single_pass_covered:
  "compare_results single_reference id covered_values 1 s =
     \<lparr>sumDelta = Fin 1, sumRef = Fin 4, sumReserve = Fin 2\<rparr>"
  by (cases s)
     (simp add: compare_results_def compare_step_def single_reference_def covered_values_def
        fp_sub_def fp_of_int_def)

lemma single_pass_exact:
  "compare_results single_reference id exact_values 1 s =
     \<lparr>sumDelta = Fin 0, sumRef = Fin 4, sumReserve = Fin 0\<rparr>"
  by (cases s)
     (simp add: compare_results_def compare_step_def single_reference_def exact_values_def
        fp_sub_def fp_of_int_def)

theorem exit_status_by_average_reserve_witness:
  "exit_status (main_run False False id (\<lambda>a. covered_values) single_reference id 1
      initial_values garbage_sums) = 0 \<and>
   fp_gt (average_reserve (main_run False False id (\<lambda>a. covered_values) single_reference id 1
      initial_values garbage_sums)) (Fin 1) \<and>
   exit_status (main_run False False id (\<lambda>a. exact_values) single_reference id 1
      initial_values garbage_sums) = 1 \<and>
   verdict (main_run False False id (\<lambda>a. exact_values) single_reference id 1
      initial_values garbage_sums) = ''Test failed!'' @ [CHR 0x0A]"
proof -
  have a: "average_reserve (main_run False False id (\<lambda>a. covered_values) single_reference id 1
      initial_values garbage_sums) = Fin 2"
    by (simp add: main_run_last_pass [where s' = garbage_sums] single_pass_covered test_summary_def)
  have b: "average_reserve (main_run False False id (\<lambda>a. exact_values) single_reference id 1
      initial_values garbage_sums) = Fin 0"
    by (simp add: main_run_last_pass [where s' = garbage_sums] single_pass_exact test_summary_def)
  show ?thesis
    using exit_status_by_average_reserve
        [of False False id "\<lambda>a. covered_values" single_reference id 1 initial_values garbage_sums]
      exit_status_by_average_reserve
        [of False False id "\<lambda>a. exact_values" single_reference id 1 initial_values garbage_sums]
    by (simp add: a b)
qed

text \<open>
  C10. With \<open>qatest\<close> both strategies run. The summary is that of the second
  comparison alone: it starts from accumulators at zero, whatever the first comparison
  left in them, and reads the array as the streamed pass left it; norm, average
  reserve and exit status follow from it.
\<close>

theorem qatest_second_pass_decides:
  "main_run use_threads True threaded streamed bs od OPT_N cv s =
     test_summary (compare_results bs od (streamed (threaded cv)) OPT_N s') \<and>
   L1_norm (main_run use_threads True threaded streamed bs od OPT_N cv s) =
     fp_div (sumDelta (foldl (compare_step bs od (streamed (threaded cv))) zero_sums [0..<nat OPT_N]))
            (sumRef (foldl (compare_step bs od (streamed (threaded cv))) zero_sums [0..<nat OPT_N])) \<and>
   average_reserve (main_run use_threads True threaded streamed bs od OPT_N cv s) =
     fp_div (sumReserve (foldl (compare_step bs od (streamed (threaded cv))) zero_sums [0..<nat OPT_N]))
            (fp_of_int OPT_N) \<and>
   exit_status (main_run use_threads True threaded streamed bs od OPT_N cv s) =
     (if fp_gt (fp_div (sumReserve (foldl (compare_step bs od (streamed (threaded cv))) zero_sums
                         [0..<nat OPT_N])) (fp_of_int OPT_N)) (Fin 1)
      then EXIT_SUCCESS else EXIT_FAILURE)"
proof -
  have run: "main_run use_threads True threaded streamed bs od OPT_N cv s =
     test_summary (compare_results bs od (streamed (threaded cv)) OPT_N s')"
    by (simp add: main_run_last_pass [where s' = s'])
  then show ?thesis
    by (simp add: test_summary_def compare_results_zero [of _ _ _ _ s'] Let_def)
qed

theorem qatest_second_pass_decides_witness:
  "main_run True True (\<lambda>a. covered_values) (\<lambda>a. exact_values) single_reference id 1
      initial_values garbage_sums =
     \<lparr>L1_norm = Fin 0, average_reserve = Fin 0, verdict = ''Test failed!'' @ [CHR 0x0A],
      exit_status = EXIT_FAILURE\<rparr> \<and>
   test_summary (compare_results single_reference id covered_values 1 garbage_sums) =
     \<lparr>L1_norm = Fin (1 / 4), average_reserve = Fin 2, verdict = ''Test passed'' @ [CHR 0x0A],
      exit_status = EXIT_SUCCESS\<rparr>"
  using qatest_second_pass_decides
      [of True "\<lambda>a. covered_values" "\<lambda>a. exact_values" single_reference id 1
          initial_values garbage_sums garbage_sums]
  by (simp add: single_pass_exact single_pass_covered test_summary_def)

section \<open>Properties of the device drivers\<close>

subsection \<open>Runs and traces\<close>

lemma run_calls_snd_Returned:
  "snd (run_calls throws cs) = Returned \<Longrightarrow>
     fst (run_calls throws cs) = cs \<and> (\<forall>c\<in>set cs. \<not> throws c)"
  by (induction cs) (auto split: if_splits)

lemma run_calls_Returned:
  "run_calls throws cs = (t, Returned) \<Longrightarrow> t = cs \<and> (\<forall>c\<in>set cs. \<not> throws c)"
  using run_calls_snd_Returned [of throws cs] by auto

lemma run_calls_total: "\<forall>c\<in>set cs. \<not> throws c \<Longrightarrow> run_calls throws cs = (cs, Returned)"
  by (induction cs) auto

lemma run_calls_snd_Uncaught:
  "snd (run_calls throws cs) = Uncaught c \<Longrightarrow>
     \<exists>pre post. cs = pre @ c # post \<and> fst (run_calls throws cs) = pre @ [c] \<and> throws c"
proof (induction cs)
  case Nil
  then show ?case by simp
next
  case (Cons x xs)
  show ?case
  proof (cases "throws x")
    case True
    with Cons.prems have "c = x" by simp
    with True show ?thesis by (intro exI [of _ "[]"] exI [of _ xs]) simp
  next
    case False
    with Cons.prems have "snd (run_calls throws xs) = Uncaught c" by simp
    from Cons.IH [OF this] obtain pre post where
      p: "xs = pre @ c # post" "fst (run_calls throws xs) = pre @ [c]" "throws c" by blast
    show ?thesis
      using p False by (intro exI [of _ "x # pre"] exI [of _ post]) simp
  qed
qed

lemma run_calls_Uncaught:
  "run_calls throws cs = (t, Uncaught c) \<Longrightarrow>
     \<exists>pre post. cs = pre @ c # post \<and> t = pre @ [c] \<and> throws c"
  using run_calls_snd_Uncaught [of throws cs c] by auto

lemma dropWhile_neq_left:
  "a \<in> set xs \<Longrightarrow> dropWhile (\<lambda>c. c \<noteq> a) (xs @ ys) = dropWhile (\<lambda>c. c \<noteq> a) xs @ ys"
  by (rule dropWhile_append1 [of a]) auto

lemma dropWhile_neq_right:
  "a \<notin> set xs \<Longrightarrow> dropWhile (\<lambda>c. c \<noteq> a) (xs @ ys) = dropWhile (\<lambda>c. c \<noteq> a) ys"
  by (rule dropWhile_append2) auto

lemma dropWhile_neq_Nil: "dropWhile (\<lambda>c. c \<noteq> a) xs = [] \<longleftrightarrow> a \<notin> set xs"
  by (induction xs) auto

lemma issued_before_appendI:
  "a \<in> set xs \<Longrightarrow> b \<in> set ys \<Longrightarrow> issued_before a b (xs @ ys)"
proof -
  assume a: "a \<in> set xs" and b: "b \<in> set ys"
  from a have "dropWhile (\<lambda>c. c \<noteq> a) xs \<noteq> []"
    using dropWhile_neq_Nil [of a xs] by blast
  with a b show ?thesis
    by (simp add: issued_before_def dropWhile_neq_left)
qed

lemma issued_before_in_set: "issued_before a b xs \<Longrightarrow> a \<in> set xs"
proof (rule ccontr)
  assume h: "issued_before a b xs" and n: "a \<notin> set xs"
  from n have "dropWhile (\<lambda>c. c \<noteq> a) xs = []"
    using dropWhile_neq_Nil [of a xs] by blast
  with h show False by (simp add: issued_before_def)
qed

lemma issued_before_append_left:
  "issued_before a b xs \<Longrightarrow> issued_before a b (xs @ ys)"
proof -
  assume h: "issued_before a b xs"
  then have a: "a \<in> set xs" by (rule issued_before_in_set)
  then have "dropWhile (\<lambda>c. c \<noteq> a) xs \<noteq> []"
    using dropWhile_neq_Nil [of a xs] by blast
  with h a show ?thesis by (simp add: issued_before_def dropWhile_neq_left)
qed

lemma issued_before_append_right:
  "a \<notin> set xs \<Longrightarrow> issued_before a b ys \<Longrightarrow> issued_before a b (xs @ ys)"
  by (simp add: issued_before_def dropWhile_neq_right)

lemma issued_before_split:
  "distinct (pre @ c # post) \<Longrightarrow> issued_before c b (pre @ c # post) \<Longrightarrow> b \<notin> set (pre @ [c])"
proof -
  assume d: "distinct (pre @ c # post)" and h: "issued_before c b (pre @ c # post)"
  from d have "c \<notin> set pre" by simp
  then have "dropWhile (\<lambda>x. x \<noteq> c) (pre @ c # post) = c # post"
    by (simp add: dropWhile_neq_right)
  with h have "b \<in> set post" by (simp add: issued_before_def)
  with d show ?thesis by auto
qed

lemma set_simulate_calls:
  "set (concat (map (\<lambda>i. [MonteCarloGPU i, SubmitBarrier i]) [0..<n])) =
     MonteCarloGPU ` {..<n} \<union> SubmitBarrier ` {..<n}"
  by (induction n) (auto simp: lessThan_Suc)

lemma distinct_simulate_calls:
  "distinct (concat (map (\<lambda>i. [MonteCarloGPU i, SubmitBarrier i]) [0..<n]))"
  by (induction n) (auto simp: set_simulate_calls)

lemma multiSolver_calls_distinct: "distinct (multiSolver_calls plan n)"
  by (auto simp: multiSolver_calls_def distinct_map inj_on_def distinct_simulate_calls
      set_simulate_calls)

lemma count_list_distinct: "distinct xs \<Longrightarrow> x \<in> set xs \<Longrightarrow> count_list xs x = 1"
  by (induction xs) (auto simp: count_list_0_iff)

lemma simulate_before_barrier:
  "i < n \<Longrightarrow> issued_before (MonteCarloGPU i) (SubmitBarrier i)
     (concat (map (\<lambda>i. [MonteCarloGPU i, SubmitBarrier i]) [0..<n]))"
proof (induction n)
  case 0
  then show ?case by simp
next
  case (Suc n)
  show ?case
  proof (cases "i < n")
    case True
    then show ?thesis using Suc.IH by (simp add: issued_before_append_left)
  next
    case False
    with Suc.prems have i: "i = n" by simp
    have a: "MonteCarloGPU n \<notin> set (concat (map (\<lambda>i. [MonteCarloGPU i, SubmitBarrier i]) [0..<n]))"
      by (auto simp: set_simulate_calls)
    have b: "issued_before (MonteCarloGPU n) (SubmitBarrier n) [MonteCarloGPU n, SubmitBarrier n]"
      by (simp add: issued_before_def)
    show ?thesis
      using issued_before_append_right [OF a b] i by simp
  qed
qed

subsection \<open>The order of the calls of the streamed strategy\<close>

lemma issued_before_mid:
  "a \<notin> set ws \<Longrightarrow> a \<in> set xs \<Longrightarrow> b \<in> set ys \<Longrightarrow> issued_before a b (ws @ xs @ ys)"
  by (intro issued_before_append_right issued_before_appendI)

lemma filter_init_simulate_calls:
  "filter is_init (concat (map (\<lambda>i. [MonteCarloGPU i, SubmitBarrier i]) [0..<n])) = []"
  by (auto simp: filter_empty_conv set_simulate_calls)

lemma multiSolver_inits:
  "filter is_init (multiSolver_calls plan n) = map InitMonteCarloGPU [0..<n]"
  by (simp add: multiSolver_calls_def filter_map comp_def filter_init_simulate_calls)

lemma multiSolver_init_before_wait:
  "i < n \<Longrightarrow> issued_before (InitMonteCarloGPU i) (WaitAndThrow i) (multiSolver_calls plan n)"
proof -
  assume i: "i < n"
  have "issued_before (InitMonteCarloGPU i) (WaitAndThrow i)
          (([GetDevices] @ map (\<lambda>i. QueueCreate i (device (plan ! i))) [0..<n]) @
           map InitMonteCarloGPU [0..<n] @
           (map WaitAndThrow [0..<n] @
            concat (map (\<lambda>i. [MonteCarloGPU i, SubmitBarrier i]) [0..<n]) @
            map EventWaitAndThrow [0..<n] @ [StopTimer 0] @ map CloseMonteCarloGPU [0..<n]))"
    using i by (intro issued_before_mid) auto
  then show ?thesis by (simp add: multiSolver_calls_def)
qed

lemma multiSolver_wait_before_simulate:
  "i < n \<Longrightarrow> j < n \<Longrightarrow>
     issued_before (WaitAndThrow i) (MonteCarloGPU j) (multiSolver_calls plan n)"
proof -
  assume i: "i < n" and j: "j < n"
  have "issued_before (WaitAndThrow i) (MonteCarloGPU j)
          (([GetDevices] @ map (\<lambda>i. QueueCreate i (device (plan ! i))) [0..<n] @
            map InitMonteCarloGPU [0..<n]) @
           map WaitAndThrow [0..<n] @
           (concat (map (\<lambda>i. [MonteCarloGPU i, SubmitBarrier i]) [0..<n]) @
            map EventWaitAndThrow [0..<n] @ [StopTimer 0] @ map CloseMonteCarloGPU [0..<n]))"
    using i j by (intro issued_before_mid) (auto simp: set_simulate_calls)
  then show ?thesis by (simp add: multiSolver_calls_def)
qed

lemma multiSolver_simulate_before_barrier:
  "i < n \<Longrightarrow> issued_before (MonteCarloGPU i) (SubmitBarrier i) (multiSolver_calls plan n)"
proof -
  assume i: "i < n"
  have "issued_before (MonteCarloGPU i) (SubmitBarrier i)
          (([GetDevices] @ map (\<lambda>i. QueueCreate i (device (plan ! i))) [0..<n] @
            map InitMonteCarloGPU [0..<n] @ map WaitAndThrow [0..<n]) @
           (concat (map (\<lambda>i. [MonteCarloGPU i, SubmitBarrier i]) [0..<n]) @
            (map EventWaitAndThrow [0..<n] @ [StopTimer 0] @ map CloseMonteCarloGPU [0..<n])))"
    using i
    by (intro issued_before_append_right issued_before_append_left simulate_before_barrier) auto
  then show ?thesis by (simp add: multiSolver_calls_def)
qed

lemma multiSolver_barrier_before_event_wait:
  "i < n \<Longrightarrow> j < n \<Longrightarrow>
     issued_before (SubmitBarrier i) (EventWaitAndThrow j) (multiSolver_calls plan n)"
proof -
  assume i: "i < n" and j: "j < n"
  have "issued_before (SubmitBarrier i) (EventWaitAndThrow j)
          (([GetDevices] @ map (\<lambda>i. QueueCreate i (device (plan ! i))) [0..<n] @
            map InitMonteCarloGPU [0..<n] @ map WaitAndThrow [0..<n]) @
           concat (map (\<lambda>i. [MonteCarloGPU i, SubmitBarrier i]) [0..<n]) @
           (map EventWaitAndThrow [0..<n] @ [StopTimer 0] @ map CloseMonteCarloGPU [0..<n]))"
    using i j by (intro issued_before_mid) (auto simp: set_simulate_calls)
  then show ?thesis by (simp add: multiSolver_calls_def)
qed

lemma multiSolver_init_before_simulate:
  "i < n \<Longrightarrow> issued_before (InitMonteCarloGPU i) (MonteCarloGPU i) (multiSolver_calls plan n)"
proof -
  assume i: "i < n"
  have "issued_before (InitMonteCarloGPU i) (MonteCarloGPU i)
          (([GetDevices] @ map (\<lambda>i. QueueCreate i (device (plan ! i))) [0..<n]) @
           map InitMonteCarloGPU [0..<n] @
           (map WaitAndThrow [0..<n] @
            concat (map (\<lambda>i. [MonteCarloGPU i, SubmitBarrier i]) [0..<n]) @
            map EventWaitAndThrow [0..<n] @ [StopTimer 0] @ map CloseMonteCarloGPU [0..<n]))"
    using i by (intro issued_before_mid) (auto simp: set_simulate_calls)
  then show ?thesis by (simp add: multiSolver_calls_def)
qed

lemma multiSolver_simulate_before_close:
  "i < n \<Longrightarrow> j < n \<Longrightarrow>
     issued_before (MonteCarloGPU i) (CloseMonteCarloGPU j) (multiSolver_calls plan n)"
proof -
  assume i: "i < n" and j: "j < n"
  have "issued_before (MonteCarloGPU i) (CloseMonteCarloGPU j)
          (([GetDevices] @ map (\<lambda>i. QueueCreate i (device (plan ! i))) [0..<n] @
            map InitMonteCarloGPU [0..<n] @ map WaitAndThrow [0..<n]) @
           concat (map (\<lambda>i. [MonteCarloGPU i, SubmitBarrier i]) [0..<n]) @
           (map EventWaitAndThrow [0..<n] @ [StopTimer 0] @ map CloseMonteCarloGPU [0..<n]))"
    using i j by (intro issued_before_mid) (auto simp: set_simulate_calls)
  then show ?thesis by (simp add: multiSolver_calls_def)
qed

lemma multiSolver_barrier_before_close:
  "i < n \<Longrightarrow> j < n \<Longrightarrow>
     issued_before (SubmitBarrier i) (CloseMonteCarloGPU j) (multiSolver_calls plan n)"
proof -
  assume i: "i < n" and j: "j < n"
  have "issued_before (SubmitBarrier i) (CloseMonteCarloGPU j)
          (([GetDevices] @ map (\<lambda>i. QueueCreate i (device (plan ! i))) [0..<n] @
            map InitMonteCarloGPU [0..<n] @ map WaitAndThrow [0..<n]) @
           concat (map (\<lambda>i. [MonteCarloGPU i, SubmitBarrier i]) [0..<n]) @
           (map EventWaitAndThrow [0..<n] @ [StopTimer 0] @ map CloseMonteCarloGPU [0..<n]))"
    using i j by (intro issued_before_mid) (auto simp: set_simulate_calls)
  then show ?thesis by (simp add: multiSolver_calls_def)
qed

lemma multiSolver_event_wait_before_close:
  "i < n \<Longrightarrow> j < n \<Longrightarrow>
     issued_before (EventWaitAndThrow i) (CloseMonteCarloGPU j) (multiSolver_calls plan n)"
proof -
  assume i: "i < n" and j: "j < n"
  have "issued_before (EventWaitAndThrow i) (CloseMonteCarloGPU j)
          (([GetDevices] @ map (\<lambda>i. QueueCreate i (device (plan ! i))) [0..<n] @
            map InitMonteCarloGPU [0..<n] @ map WaitAndThrow [0..<n] @
            concat (map (\<lambda>i. [MonteCarloGPU i, SubmitBarrier i]) [0..<n])) @
           map EventWaitAndThrow [0..<n] @
           ([StopTimer 0] @ map CloseMonteCarloGPU [0..<n]))"
    using i j by (intro issued_before_mid) (auto simp: set_simulate_calls)
  then show ?thesis by (simp add: multiSolver_calls_def)
qed

lemma multiSolver_members:
  "i < n \<Longrightarrow> InitMonteCarloGPU i \<in> set (multiSolver_calls plan n) \<and>
     MonteCarloGPU i \<in> set (multiSolver_calls plan n) \<and>
     CloseMonteCarloGPU i \<in> set (multiSolver_calls plan n)"
  by (auto simp: multiSolver_calls_def set_simulate_calls)

lemma multiSolver_close_only_planned:
  "CloseMonteCarloGPU j \<in> set (multiSolver_calls plan n) \<Longrightarrow> j < n"
  by (auto simp: multiSolver_calls_def set_simulate_calls)

text \<open>
  C5. In a run of the streamed strategy that returns, the inits are issued in plan
  order; every queue is waited on separately, after its own init and before any
  simulation is issued; every simulation is followed by the recording of its barrier
  event, the simulations and recordings of all devices follow one another with no wait
  between them, and every recorded event is waited on, after all of them have been
  recorded, before the driver returns.
\<close>

theorem streamed_issue_order:
  assumes "multiSolver throws plan nPlans = (t, Returned)"
  shows "filter is_init t = map InitMonteCarloGPU [0..<nPlans] \<and>
         (\<forall>i<nPlans. issued_before (InitMonteCarloGPU i) (WaitAndThrow i) t) \<and>
         (\<forall>i<nPlans. \<forall>j<nPlans. issued_before (WaitAndThrow i) (MonteCarloGPU j) t) \<and>
         (\<forall>i<nPlans. issued_before (MonteCarloGPU i) (SubmitBarrier i) t) \<and>
         (\<forall>i<nPlans. \<forall>j<nPlans. issued_before (SubmitBarrier i) (EventWaitAndThrow j) t) \<and>
         (\<exists>pre post. t = pre @
            concat (map (\<lambda>i. [MonteCarloGPU i, SubmitBarrier i]) [0..<nPlans]) @ post) \<and>
         distinct t"
proof -
  have t: "t = multiSolver_calls plan nPlans"
    using assms run_calls_Returned [of throws "multiSolver_calls plan nPlans" t]
    by (simp add: multiSolver_def)
  have mid: "\<exists>pre post. t = pre @
      concat (map (\<lambda>i. [MonteCarloGPU i, SubmitBarrier i]) [0..<nPlans]) @ post"
    unfolding t multiSolver_calls_def
    by (intro exI [of _ "[GetDevices] @
          map (\<lambda>i. QueueCreate i (device (plan ! i))) [0..<nPlans] @
          map InitMonteCarloGPU [0..<nPlans] @ map WaitAndThrow [0..<nPlans]"]
        exI [of _ "map EventWaitAndThrow [0..<nPlans] @ [StopTimer 0] @
          map CloseMonteCarloGPU [0..<nPlans]"]) simp
  show ?thesis
    using mid
    by (simp add: t multiSolver_inits multiSolver_init_before_wait
        multiSolver_wait_before_simulate multiSolver_simulate_before_barrier
        multiSolver_barrier_before_event_wait multiSolver_calls_distinct)
qed

lemma example_streamed_run:
  "multiSolver never example_plans 2 =
     ([GetDevices, QueueCreate 0 0, QueueCreate 1 1,
       InitMonteCarloGPU 0, InitMonteCarloGPU 1, WaitAndThrow 0, WaitAndThrow 1,
       MonteCarloGPU 0, SubmitBarrier 0, MonteCarloGPU 1, SubmitBarrier 1,
       EventWaitAndThrow 0, EventWaitAndThrow 1, StopTimer 0,
       CloseMonteCarloGPU 0, CloseMonteCarloGPU 1], Returned)"
  by (simp add: multiSolver_def multiSolver_calls_def never_def example_plans_def
      example_plan_def eval_nat_numeral)

theorem streamed_issue_order_witness:
  "filter is_init (fst (multiSolver never example_plans 2)) =
     [InitMonteCarloGPU 0, InitMonteCarloGPU 1] \<and>
   issued_before (InitMonteCarloGPU 1) (WaitAndThrow 1) (fst (multiSolver never example_plans 2)) \<and>
   issued_before (WaitAndThrow 1) (MonteCarloGPU 0) (fst (multiSolver never example_plans 2)) \<and>
   issued_before (MonteCarloGPU 1) (SubmitBarrier 1) (fst (multiSolver never example_plans 2)) \<and>
   issued_before (SubmitBarrier 1) (EventWaitAndThrow 0) (fst (multiSolver never example_plans 2)) \<and>
   snd (multiSolver never example_plans 2) = Returned"
proof -
  note r = example_streamed_run
  note t = streamed_issue_order [OF r]
  from t have "filter is_init (fst (multiSolver never example_plans 2)) =
      map InitMonteCarloGPU [0..<2]" by (simp add: r)
  moreover have "map InitMonteCarloGPU [0..<2] = [InitMonteCarloGPU 0, InitMonteCarloGPU (1::nat)]"
    by (simp add: eval_nat_numeral)
  moreover from t have "issued_before (InitMonteCarloGPU 1) (WaitAndThrow 1)
      (fst (multiSolver never example_plans 2))" by (simp add: r)
  moreover from t have "issued_before (WaitAndThrow 1) (MonteCarloGPU 0)
      (fst (multiSolver never example_plans 2))" by (simp add: r)
  moreover from t have "issued_before (MonteCarloGPU 1) (SubmitBarrier 1)
      (fst (multiSolver never example_plans 2))" by (simp add: r)
  moreover from t have "issued_before (SubmitBarrier 1) (EventWaitAndThrow 0)
      (fst (multiSolver never example_plans 2))" by (simp add: r)
  ultimately show ?thesis by (simp add: r)
qed

subsection \<open>Init, simulate and teardown\<close>

lemma solverThread_calls_distinct: "distinct (solverThread_calls plan)"
  by (simp add: solverThread_calls_def)

lemma solverThread_order:
  "issued_before (InitMonteCarloGPU (device plan)) (MonteCarloGPU (device plan))
     (solverThread_calls plan) \<and>
   issued_before (MonteCarloGPU (device plan)) (CloseMonteCarloGPU (device plan))
     (solverThread_calls plan) \<and>
   issued_before (WaitAndThrow (device plan)) (CloseMonteCarloGPU (device plan))
     (solverThread_calls plan)"
  by (simp add: solverThread_calls_def issued_before_def)

lemma uncaught_skips_later_calls:
  assumes "run_calls throws cs = (t, Uncaught c)" and "distinct cs" and "issued_before c b cs"
  shows "count_list t b = 0"
proof -
  obtain pre post where p: "cs = pre @ c # post" "t = pre @ [c]"
    using run_calls_Uncaught [OF assms(1)] by blast
  have "b \<notin> set (pre @ [c])"
    using issued_before_split [of pre c post b] assms(2,3) p(1) by auto
  then have "b \<notin> set t" by (simp add: p(2))
  then show ?thesis by (simp add: count_list_0_iff)
qed

text \<open>
  C6, as amended. In a run of either driver in which no call raises, init, simulate
  and teardown are made exactly once for each plan, in this order. When the simulation
  or the wait for its completion raises, the exception is not caught and no teardown
  at all is made: not for the plan of a host thread, and for no plan of the streamed
  strategy.
\<close>

theorem driver_call_sequence:
  "(solverThread throws plan = (t, Returned) \<longrightarrow>
      count_list t (InitMonteCarloGPU (device plan)) = 1 \<and>
      count_list t (MonteCarloGPU (device plan)) = 1 \<and>
      count_list t (CloseMonteCarloGPU (device plan)) = 1 \<and>
      issued_before (InitMonteCarloGPU (device plan)) (MonteCarloGPU (device plan)) t \<and>
      issued_before (MonteCarloGPU (device plan)) (CloseMonteCarloGPU (device plan)) t) \<and>
   (solverThread throws plan = (t, Uncaught c) \<and>
      (c = MonteCarloGPU (device plan) \<or> c = WaitAndThrow (device plan)) \<longrightarrow>
      count_list t (CloseMonteCarloGPU (device plan)) = 0) \<and>
   (multiSolver throws' plans nPlans = (t', Returned) \<longrightarrow>
      (\<forall>i<nPlans.
         count_list t' (InitMonteCarloGPU i) = 1 \<and>
         count_list t' (MonteCarloGPU i) = 1 \<and>
         count_list t' (CloseMonteCarloGPU i) = 1 \<and>
         issued_before (InitMonteCarloGPU i) (MonteCarloGPU i) t' \<and>
         issued_before (MonteCarloGPU i) (CloseMonteCarloGPU i) t')) \<and>
   (multiSolver throws' plans nPlans = (t', Uncaught c') \<and>
      (\<exists>i<nPlans. c' = MonteCarloGPU i \<or> c' = SubmitBarrier i \<or> c' = EventWaitAndThrow i) \<longrightarrow>
      (\<forall>j. count_list t' (CloseMonteCarloGPU j) = 0))"
proof (intro conjI impI)
  assume r: "solverThread throws plan = (t, Returned)"
  then have t: "t = solverThread_calls plan"
    using run_calls_Returned [of throws "solverThread_calls plan" t]
    by (simp add: solverThread_def)
  show "count_list t (InitMonteCarloGPU (device plan)) = 1"
    and "count_list t (MonteCarloGPU (device plan)) = 1"
    and "count_list t (CloseMonteCarloGPU (device plan)) = 1"
    by (simp_all add: t solverThread_calls_def)
  show "issued_before (InitMonteCarloGPU (device plan)) (MonteCarloGPU (device plan)) t"
    and "issued_before (MonteCarloGPU (device plan)) (CloseMonteCarloGPU (device plan)) t"
    using solverThread_order [of plan] by (simp_all add: t)
next
  assume h: "solverThread throws plan = (t, Uncaught c) \<and>
      (c = MonteCarloGPU (device plan) \<or> c = WaitAndThrow (device plan))"
  then have r: "run_calls throws (solverThread_calls plan) = (t, Uncaught c)"
    by (simp add: solverThread_def)
  have "issued_before c (CloseMonteCarloGPU (device plan)) (solverThread_calls plan)"
    using h solverThread_order [of plan] by auto
  then show "count_list t (CloseMonteCarloGPU (device plan)) = 0"
    by (rule uncaught_skips_later_calls [OF r solverThread_calls_distinct])
next
  assume r: "multiSolver throws' plans nPlans = (t', Returned)"
  then have t: "t' = multiSolver_calls plans nPlans"
    using run_calls_Returned [of throws' "multiSolver_calls plans nPlans" t']
    by (simp add: multiSolver_def)
  show "\<forall>i<nPlans.
         count_list t' (InitMonteCarloGPU i) = 1 \<and>
         count_list t' (MonteCarloGPU i) = 1 \<and>
         count_list t' (CloseMonteCarloGPU i) = 1 \<and>
         issued_before (InitMonteCarloGPU i) (MonteCarloGPU i) t' \<and>
         issued_before (MonteCarloGPU i) (CloseMonteCarloGPU i) t'"
    by (simp add: t count_list_distinct multiSolver_calls_distinct multiSolver_members
        multiSolver_init_before_simulate multiSolver_simulate_before_close)
next
  assume h: "multiSolver throws' plans nPlans = (t', Uncaught c') \<and>
      (\<exists>i<nPlans. c' = MonteCarloGPU i \<or> c' = SubmitBarrier i \<or> c' = EventWaitAndThrow i)"
  then have r: "run_calls throws' (multiSolver_calls plans nPlans) = (t', Uncaught c')"
    by (simp add: multiSolver_def)
  obtain pre post where p: "multiSolver_calls plans nPlans = pre @ c' # post" "t' = pre @ [c']"
    using run_calls_Uncaught [OF r] by blast
  show "\<forall>j. count_list t' (CloseMonteCarloGPU j) = 0"
  proof
    fix j
    show "count_list t' (CloseMonteCarloGPU j) = 0"
    proof (cases "j < nPlans")
      case True
      have "issued_before c' (CloseMonteCarloGPU j) (multiSolver_calls plans nPlans)"
        using h True multiSolver_simulate_before_close [of _ nPlans j plans]
          multiSolver_barrier_before_close [of _ nPlans j plans]
          multiSolver_event_wait_before_close [of _ nPlans j plans]
        by auto
      then show ?thesis
        by (rule uncaught_skips_later_calls [OF r multiSolver_calls_distinct])
    next
      case False
      then have "CloseMonteCarloGPU j \<notin> set (multiSolver_calls plans nPlans)"
        using multiSolver_close_only_planned [of j plans nPlans] by blast
      then have "CloseMonteCarloGPU j \<notin> set t'"
        using p by auto
      then show ?thesis by (simp add: count_list_0_iff)
    qed
  qed
qed

text \<open>
  C6 as stated fails: when \<open>MonteCarloGPU\<close> raises in the host thread of device 0, the
  thread ends after five calls and \<open>closeMonteCarloGPU\<close> is never called.
\<close>

theorem teardown_skipped_counterexample:
  "solverThread (\<lambda>c. c = MonteCarloGPU 0) example_plan =
     ([StartTimer 0, GetDevices, QueueCreate 0 0, InitMonteCarloGPU 0, MonteCarloGPU 0],
      Uncaught (MonteCarloGPU 0)) \<and>
   count_list (fst (solverThread (\<lambda>c. c = MonteCarloGPU 0) example_plan))
     (CloseMonteCarloGPU 0) = 0"
  by (simp add: solverThread_def solverThread_calls_def example_plan_def)

lemma example_threaded_run:
  "solverThread never example_plan =
     ([StartTimer 0, GetDevices, QueueCreate 0 0, InitMonteCarloGPU 0, MonteCarloGPU 0,
       WaitAndThrow 0, StopTimer 0, CloseMonteCarloGPU 0, QueueWait 0], Returned)"
  by (simp add: solverThread_def solverThread_calls_def example_plan_def never_def)

lemma example_threaded_failure:
  "solverThread (\<lambda>c. c = WaitAndThrow 0) example_plan =
     ([StartTimer 0, GetDevices, QueueCreate 0 0, InitMonteCarloGPU 0, MonteCarloGPU 0,
       WaitAndThrow 0],
      Uncaught (WaitAndThrow 0))"
  by (simp add: solverThread_def solverThread_calls_def example_plan_def)

lemma example_streamed_failure:
  "multiSolver (\<lambda>c. c = EventWaitAndThrow 1) example_plans 2 =
     ([GetDevices, QueueCreate 0 0, QueueCreate 1 1,
       InitMonteCarloGPU 0, InitMonteCarloGPU 1, WaitAndThrow 0, WaitAndThrow 1,
       MonteCarloGPU 0, SubmitBarrier 0, MonteCarloGPU 1, SubmitBarrier 1,
       EventWaitAndThrow 0, EventWaitAndThrow 1], Uncaught (EventWaitAndThrow 1))"
  by (simp add: multiSolver_def multiSolver_calls_def example_plans_def
      example_plan_def eval_nat_numeral)

theorem driver_call_sequence_witness:
  "count_list (fst (solverThread never example_plan)) (InitMonteCarloGPU 0) = 1 \<and>
   count_list (fst (solverThread never example_plan)) (MonteCarloGPU 0) = 1 \<and>
   count_list (fst (solverThread never example_plan)) (CloseMonteCarloGPU 0) = 1 \<and>
   snd (solverThread never example_plan) = Returned \<and>
   count_list (fst (solverThread (\<lambda>c. c = WaitAndThrow 0) example_plan))
     (CloseMonteCarloGPU 0) = 0 \<and>
   count_list (fst (multiSolver never example_plans 2)) (CloseMonteCarloGPU 1) = 1 \<and>
   issued_before (MonteCarloGPU 1) (CloseMonteCarloGPU 1) (fst (multiSolver never example_plans 2)) \<and>
   count_list (fst (multiSolver (\<lambda>c. c = EventWaitAndThrow 1) example_plans 2))
     (CloseMonteCarloGPU 0) = 0"
proof -
  have d: "device example_plan = 0" by (simp add: example_plan_def)
  have r1: "solverThread never example_plan = (fst (solverThread never example_plan), Returned)"
    using example_threaded_run by simp
  have r2: "multiSolver never example_plans 2 = (fst (multiSolver never example_plans 2), Returned)"
    using example_streamed_run by simp
  have f1: "solverThread (\<lambda>c. c = WaitAndThrow 0) example_plan =
      (fst (solverThread (\<lambda>c. c = WaitAndThrow 0) example_plan), Uncaught (WaitAndThrow 0))"
    using example_threaded_failure by simp
  have f2: "multiSolver (\<lambda>c. c = EventWaitAndThrow 1) example_plans 2 =
      (fst (multiSolver (\<lambda>c. c = EventWaitAndThrow 1) example_plans 2),
       Uncaught (EventWaitAndThrow 1))"
    using example_streamed_failure by simp
  note a = driver_call_sequence
    [where throws = never and plan = example_plan
       and t = "fst (solverThread never example_plan)" and c = "WaitAndThrow 0"
       and throws' = never and plans = example_plans and nPlans = 2
       and t' = "fst (multiSolver never example_plans 2)" and c' = "EventWaitAndThrow 1"]
  note b = driver_call_sequence
    [where throws = "\<lambda>c. c = WaitAndThrow 0" and plan = example_plan
       and t = "fst (solverThread (\<lambda>c. c = WaitAndThrow 0) example_plan)"
       and c = "WaitAndThrow 0"
       and throws' = "\<lambda>c. c = EventWaitAndThrow 1" and plans = example_plans and nPlans = 2
       and t' = "fst (multiSolver (\<lambda>c. c = EventWaitAndThrow 1) example_plans 2)"
       and c' = "EventWaitAndThrow 1"]
  from a r1 have a1: "count_list (fst (solverThread never example_plan))
        (InitMonteCarloGPU (device example_plan)) = 1 \<and>
      count_list (fst (solverThread never example_plan))
        (MonteCarloGPU (device example_plan)) = 1 \<and>
      count_list (fst (solverThread never example_plan))
        (CloseMonteCarloGPU (device example_plan)) = 1"
    by blast
  from a r2 have "\<forall>i<2. count_list (fst (multiSolver never example_plans 2))
        (CloseMonteCarloGPU i) = 1 \<and>
      issued_before (MonteCarloGPU i) (CloseMonteCarloGPU i)
        (fst (multiSolver never example_plans 2))"
    by blast
  then have a2: "count_list (fst (multiSolver never example_plans 2)) (CloseMonteCarloGPU 1) = 1 \<and>
      issued_before (MonteCarloGPU 1) (CloseMonteCarloGPU 1) (fst (multiSolver never example_plans 2))"
    by simp
  have dis: "WaitAndThrow 0 = MonteCarloGPU (device example_plan) \<or>
      WaitAndThrow 0 = WaitAndThrow (device example_plan)"
    by (simp add: d)
  from b f1 dis have b1: "count_list (fst (solverThread (\<lambda>c. c = WaitAndThrow 0) example_plan))
      (CloseMonteCarloGPU (device example_plan)) = 0"
    by blast
  have "\<exists>i<2. EventWaitAndThrow 1 = MonteCarloGPU i \<or> EventWaitAndThrow 1 = SubmitBarrier i \<or>
      EventWaitAndThrow (1::nat) = EventWaitAndThrow i"
    by (intro exI [of _ 1]) simp
  with b f2 have b2: "\<forall>j. count_list (fst (multiSolver (\<lambda>c. c = EventWaitAndThrow 1) example_plans 2))
      (CloseMonteCarloGPU j) = 0"
    by blast
  from a1 a2 b1 b2 show ?thesis by (simp add: d example_threaded_run)
qed

end
